theory Spec2Isabelle
  imports Main "HOL-Library.AList" "HOL-Library.Word"
begin

section \<open>The client DNS server of client/internal/dns/server.go\<close>

text \<open>
  A shallow embedding of \<^verbatim>\<open>DefaultServer\<close> and its operations. The server is a
  record that every operation takes and returns; an operation that can fail returns its
  error beside the server. Calls that leave the file (the handler chain, the listener
  service, the host manager, the state manager, the search-domain notifier) are appended
  to an event log in the order the code makes them; what such a call returns is read
  from an environment record. The record table of the local resolver and the states of
  the status recorder are fields of the server. Go maps are association lists, read
  through \<open>map_of\<close>; the order of a list stands for one of the iteration orders Go may
  choose. The mutex is held by every operation that changes the server, so the
  operations are modelled as atomic steps; the state persisted by a goroutine is logged
  where the goroutine is started.
\<close>

subsection \<open>Data of the control plane and of the host configuration\<close>

datatype NameServerType = UDPNameServerType | OtherNameServerType nat

record NameServer =
  IP :: string
  NSType :: NameServerType
  Port :: int

text \<open>Of a name-server group the file reads the three fields below and no other.\<close>

record NameServerGroup =
  NameServers :: "NameServer list"
  nsgDomains :: "string list"
  Primary :: bool

record SimpleRecord =
  Name :: string
  Type :: int
  Class :: string
  TTL :: int
  RData :: string

record CustomZone =
  czDomain :: string
  Records :: "SimpleRecord list"

record Config =
  ServiceEnable :: bool
  CustomZones :: "CustomZone list"
  NameServerGroups :: "NameServerGroup list"

record DomainConfig =
  Disabled :: bool
  dcDomain :: string
  MatchOnly :: bool

record HostDNSConfig =
  Domains :: "DomainConfig list"
  RouteAll :: bool
  ServerIP :: string
  ServerPort :: int

subsection \<open>Handlers, the host manager, errors and events\<close>

text \<open>
  The two closures of \<^verbatim>\<open>upstreamCallbacks\<close> are determined by the group, the handler
  and the priority they capture; the fallback and host-root resolvers get closures that
  do nothing.
\<close>

datatype callbacks = AlwaysActive | GroupCallbacks NameServerGroup int

datatype handler =
    LocalResolver
  | UpstreamResolver string "string list" callbacks
  | ExternalHandler string

record handlerWrapper =
  domain :: string
  handler :: handler
  priority :: int

record nsGroupsByDomain =
  gdomain :: string
  groups :: "NameServerGroup list"

text \<open>
  A host manager is the no-op configurator or a real one. Of a real one the file asks
  whether it supports a custom port, whether it implements
  \<^verbatim>\<open>hostManagerWithOriginalNS\<close> (and then its original name servers), and whether
  \<^verbatim>\<open>restoreHostDNS\<close> fails.
\<close>

datatype hostManager =
    noopHostConfigurator
  | configurator bool "string list option" bool

datatype error =
    ErrContext
  | ErrStaleSerial "64 word"
  | ErrEmptyDomainList
  | ErrEmptyDomainElement
  | ErrCreateUpstreamResolver
  | ErrListen
  | ErrInvalidRuntimeIP
  | ErrInitialize
  | ErrWrap string error

datatype event =
    CtxCancel
  | AddHandler string handler int
  | RemoveHandler string int
  | HandlerStop handler
  | ServiceListen
  | ServiceStop
  | ApplyDNSConfig HostDNSConfig
  | RestoreHostDNS
  | DeleteState
  | PersistState
  | OnNewSearchDomains "string list"

record NSGroupState =
  stID :: string
  stServers :: "string list"
  stDomains :: "string list"
  stEnabled :: bool
  stError :: "string option"

subsection \<open>The server and its environment\<close>

record DefaultServer =
  ctxErr :: bool
  disableSys :: bool
  dnsMuxMap :: "(string \<times> handlerWrapper) list"
  localRecords :: "SimpleRecord list"
  hostManager :: hostManager
  updateSerial :: "64 word"
  previousConfigHash :: "64 word"
  currentConfig :: HostDNSConfig
  extraDomains :: "(string \<times> int) list"
  permanent :: bool
  hostsDNSHolder :: "string list"
  searchDomainNotifier :: bool
  dnsStates :: "NSGroupState list"
  events :: "event list"

text \<open>
  What the file uses and does not define: the four priority constants, the default
  record class, the structural hash, the domain normalisers, the conversion to a host
  configuration, the parser of IP addresses, and the answers of the listener service,
  of the platform and of the resolver and host-manager constructors.
\<close>

record env =
  PriorityLocal :: int
  PriorityUpstream :: int
  PriorityDefault :: int
  PriorityFallback :: int
  DefaultClass :: string
  hashConfig :: "Config \<Rightarrow> 64 word"
  PunycodeString :: "string \<Rightarrow> string"
  ToLower :: "string \<Rightarrow> string"
  Fqdn :: "string \<Rightarrow> string"
  NormalizeZone :: "string \<Rightarrow> string"
  dnsConfigToHostDNSConfig :: "Config \<Rightarrow> string \<Rightarrow> int \<Rightarrow> HostDNSConfig"
  newUpstreamResolverFails :: "string \<Rightarrow> bool"
  handlerID :: "handler \<Rightarrow> string"
  listenFails :: bool
  RuntimeIP :: string
  RuntimeIPIsValid :: bool
  RuntimePort :: int
  netstackIsEnabled :: bool
  goosIsAndroid :: bool
  initialize :: "hostManager option"
  noopSupportCustomPort :: bool
  noopOriginalNameservers :: "string list option"
  parsesAsIPv6 :: "string \<Rightarrow> bool"

text \<open>Modelled from the spec: the constant \<^verbatim>\<open>nbdns.RootZone\<close>, the root zone \<open>.\<close>
  of the glossary.\<close>

definition RootZone :: string where
  "RootZone = ''.''"

text \<open>Modelled from the spec: the constant \<^verbatim>\<open>defaultPort\<close>; the listener's port
  defaults to 53.\<close>

definition defaultPort :: int where
  "defaultPort = 53"

text \<open>Go's \<^verbatim>\<open>int\<close> on a 64-bit platform: the result of an addition or subtraction,
  wrapped into the signed range.\<close>

definition go_int :: "int \<Rightarrow> int" where
  "go_int x = (x + 2 ^ 63) mod 2 ^ 64 - 2 ^ 63"

definition emit :: "event \<Rightarrow> DefaultServer \<Rightarrow> DefaultServer" where
  "emit e s = s\<lparr>events := events s @ [e]\<rparr>"

subsection \<open>Registering and deregistering with the handler chain\<close>

definition registerHandler :: "string list \<Rightarrow> handler \<Rightarrow> int \<Rightarrow> DefaultServer \<Rightarrow> DefaultServer" where
  "registerHandler domains h p s =
     s\<lparr>events := events s @ map (\<lambda>d. AddHandler d h p) (filter (\<lambda>d. d \<noteq> []) domains)\<rparr>"

definition deregisterHandler :: "string list \<Rightarrow> int \<Rightarrow> DefaultServer \<Rightarrow> DefaultServer" where
  "deregisterHandler domains p s =
     s\<lparr>events := events s @ map (\<lambda>d. RemoveHandler d p) (filter (\<lambda>d. d \<noteq> []) domains)\<rparr>"

definition SearchDomains :: "DefaultServer \<Rightarrow> string list" where
  "SearchDomains s =
     map dcDomain (filter (\<lambda>dConf. \<not> Disabled dConf \<and> \<not> MatchOnly dConf) (Domains (currentConfig s)))"

subsection \<open>Applying the host configuration\<close>

text \<open>The verb \<^verbatim>\<open>%d\<close> of \<^verbatim>\<open>fmt.Sprintf\<close>: an integer in decimal.\<close>

fun showNat :: "nat \<Rightarrow> string" where
  "showNat n =
     (if n < 10 then [char_of (48 + n)] else showNat (n div 10) @ [char_of (48 + n mod 10)])"

declare showNat.simps [simp del]

definition fmtInt :: "int \<Rightarrow> string" where
  "fmtInt i = (if i < 0 then ''-'' @ showNat (nat (- i)) else showNat (nat i))"

definition formatAddr :: "env \<Rightarrow> string \<Rightarrow> int \<Rightarrow> string" where
  "formatAddr E address port =
     (if parsesAsIPv6 E address then ''['' @ address @ '']:'' @ fmtInt port
      else address @ '':'' @ fmtInt port)"

definition getNSHostPort :: "env \<Rightarrow> NameServer \<Rightarrow> string" where
  "getNSHostPort E ns = formatAddr E (IP ns) (Port ns)"

definition isUsingNoopHostManager :: "DefaultServer \<Rightarrow> bool" where
  "isUsingNoopHostManager s = (hostManager s = noopHostConfigurator)"

fun supportCustomPort :: "env \<Rightarrow> hostManager \<Rightarrow> bool" where
  "supportCustomPort E noopHostConfigurator = noopSupportCustomPort E"
| "supportCustomPort E (configurator port ons rerr) = port"

text \<open>\<open>None\<close>: the manager does not implement \<^verbatim>\<open>hostManagerWithOriginalNS\<close>.\<close>

fun getOriginalNameservers :: "env \<Rightarrow> hostManager \<Rightarrow> string list option" where
  "getOriginalNameservers E noopHostConfigurator = noopOriginalNameservers E"
| "getOriginalNameservers E (configurator port ons rerr) = ons"

fun restoreHostDNSFails :: "hostManager \<Rightarrow> bool" where
  "restoreHostDNSFails noopHostConfigurator = False"
| "restoreHostDNSFails (configurator port ons rerr) = rerr"

definition registerFallback :: "env \<Rightarrow> HostDNSConfig \<Rightarrow> DefaultServer \<Rightarrow> DefaultServer" where
  "registerFallback E config s =
     (case getOriginalNameservers E (hostManager s) of
        None \<Rightarrow> s
      | Some originalNameservers \<Rightarrow>
          if length originalNameservers = 0 then s
          else if newUpstreamResolverFails E RootZone then s
          else registerHandler [RootZone]
                 (UpstreamResolver RootZone
                    (map (\<lambda>ns. formatAddr E ns defaultPort)
                       (filter (\<lambda>ns. ns \<noteq> ServerIP config) originalNameservers))
                    AlwaysActive)
                 (PriorityFallback E) s)"

text \<open>The set of existing domains is taken before the loop over the extra domains, so
  each extra domain is compared with the domains of \<^verbatim>\<open>currentConfig\<close> only.\<close>

definition applyHostConfig :: "env \<Rightarrow> DefaultServer \<Rightarrow> DefaultServer" where
  "applyHostConfig E s =
     (if ctxErr s then s
      else
        let config = currentConfig s;
            existingDomains = set (map dcDomain (Domains config));
            extra = map (\<lambda>d. \<lparr>Disabled = False, dcDomain = PunycodeString E d, MatchOnly = True\<rparr>)
                      (filter (\<lambda>d. PunycodeString E d \<notin> existingDomains)
                         (map fst (extraDomains s)));
            config' = config\<lparr>Domains := Domains config @ extra\<rparr>
        in registerFallback E config' (emit (ApplyDNSConfig config') s))"

subsection \<open>Handlers registered from outside: the extra-domain reference counts\<close>

definition toZone :: "env \<Rightarrow> string \<Rightarrow> string" where
  "toZone E d = NormalizeZone E (Fqdn E (ToLower E (PunycodeString E d)))"

text \<open>Reading a key that a Go map does not hold gives 0.\<close>

definition refcount :: "(string \<times> int) list \<Rightarrow> string \<Rightarrow> int" where
  "refcount m z = (case map_of m z of None \<Rightarrow> 0 | Some c \<Rightarrow> c)"

definition incRef :: "string \<Rightarrow> (string \<times> int) list \<Rightarrow> (string \<times> int) list" where
  "incRef z m = AList.update z (go_int (refcount m z + 1)) m"

definition decRef :: "string \<Rightarrow> (string \<times> int) list \<Rightarrow> (string \<times> int) list" where
  "decRef z m =
     (let m' = AList.update z (go_int (refcount m z - 1)) m
      in if refcount m' z \<le> 0 then AList.delete z m' else m')"

text \<open>\<^verbatim>\<open>ToPunycodeList\<close> is taken to apply \<^verbatim>\<open>PunycodeString\<close> to each domain of the
  list.\<close>

definition RegisterHandler :: "env \<Rightarrow> string list \<Rightarrow> handler \<Rightarrow> int \<Rightarrow> DefaultServer \<Rightarrow> DefaultServer" where
  "RegisterHandler E domains h p s =
     (let s1 = registerHandler (map (PunycodeString E) domains) h p s;
          s2 = s1\<lparr>extraDomains := foldl (\<lambda>m d. incRef (toZone E d) m) (extraDomains s1) domains\<rparr>
      in applyHostConfig E s2)"

definition DeregisterHandler :: "env \<Rightarrow> string list \<Rightarrow> int \<Rightarrow> DefaultServer \<Rightarrow> DefaultServer" where
  "DeregisterHandler E domains p s =
     (let s1 = deregisterHandler (map (PunycodeString E) domains) p s;
          s2 = s1\<lparr>extraDomains := foldl (\<lambda>m d. decRef (toZone E d) m) (extraDomains s1) domains\<rparr>
      in applyHostConfig E s2)"

subsection \<open>Enabling, disabling and stopping\<close>

text \<open>\<^verbatim>\<open>disableDNS\<close> always returns nil; the deferred \<^verbatim>\<open>service.Stop()\<close> runs last on
  both paths.\<close>

definition disableDNS :: "env \<Rightarrow> DefaultServer \<Rightarrow> DefaultServer" where
  "disableDNS E s =
     (if isUsingNoopHostManager s then emit ServiceStop s
      else
        let s1 = (case getOriginalNameservers E (hostManager s) of
                    None \<Rightarrow> s
                  | Some srvs \<Rightarrow>
                      if length srvs > 0 then deregisterHandler [RootZone] (PriorityFallback E) s
                      else s);
            s2 = emit RestoreHostDNS s1;
            s3 = (if restoreHostDNSFails (hostManager s2) then s2 else emit DeleteState s2);
            s4 = s3\<lparr>hostManager := noopHostConfigurator\<rparr>
        in emit ServiceStop s4)"

definition Stop :: "env \<Rightarrow> DefaultServer \<Rightarrow> DefaultServer" where
  "Stop E s =
     (let s1 = emit CtxCancel (s\<lparr>ctxErr := True\<rparr>);
          s2 = disableDNS E s1
      in s2\<lparr>extraDomains := []\<rparr>)"

definition enableDNS :: "env \<Rightarrow> DefaultServer \<Rightarrow> error option \<times> DefaultServer" where
  "enableDNS E s =
     (let s1 = emit ServiceListen s in
      if listenFails E then (Some (ErrWrap ''start DNS service'' ErrListen), s1)
      else if \<not> isUsingNoopHostManager s1 then (None, s1)
      else if disableSys s1 \<or> netstackIsEnabled E then (None, s1)
      else if \<not> RuntimeIPIsValid E then (Some ErrInvalidRuntimeIP, s1)
      else (case initialize E of
              None \<Rightarrow> (Some (ErrWrap ''initialize host manager'' ErrInitialize), s1)
            | Some hostManager' \<Rightarrow> (None, s1\<lparr>hostManager := hostManager'\<rparr>)))"

subsection \<open>Building the handlers of an update\<close>

definition buildLocalHandlerUpdate ::
  "env \<Rightarrow> CustomZone list \<Rightarrow> handlerWrapper list \<times> SimpleRecord list" where
  "buildLocalHandlerUpdate E customZones =
     (let kept = filter (\<lambda>customZone. length (Records customZone) \<noteq> 0) customZones
      in (map (\<lambda>customZone.
                 \<lparr>domain = czDomain customZone, handler = LocalResolver, priority = PriorityLocal E\<rparr>)
              kept,
          concat (map (\<lambda>customZone.
                         filter (\<lambda>record. Class record = DefaultClass E) (Records customZone))
                      kept)))"

text \<open>\<^verbatim>\<open>domainMap[k] = append(domainMap[k], group)\<close>\<close>

definition appendGroup ::
  "string \<Rightarrow> NameServerGroup \<Rightarrow> (string \<times> NameServerGroup list) list
     \<Rightarrow> (string \<times> NameServerGroup list) list" where
  "appendGroup k nsGroup domainMap =
     AList.update k ((case map_of domainMap k of None \<Rightarrow> [] | Some gs \<Rightarrow> gs) @ [nsGroup]) domainMap"

definition groupStep ::
  "(string \<times> NameServerGroup list) list \<Rightarrow> NameServerGroup
     \<Rightarrow> (string \<times> NameServerGroup list) list" where
  "groupStep domainMap nsGroup =
     (if Primary nsGroup then appendGroup RootZone nsGroup domainMap
      else foldl (\<lambda>m d. if d = [] then m else appendGroup d nsGroup m) domainMap (nsgDomains nsGroup))"

definition groupNSGroupsByDomain :: "NameServerGroup list \<Rightarrow> nsGroupsByDomain list" where
  "groupNSGroupsByDomain nsGroups =
     map (\<lambda>(d, gs). \<lparr>gdomain = d, groups = gs\<rparr>) (foldl groupStep [] nsGroups)"

definition leaksPriority :: "env \<Rightarrow> int \<Rightarrow> int \<Rightarrow> bool" where
  "leaksPriority E basePriority priority' =
     (if basePriority = PriorityUpstream E \<and> priority' \<le> PriorityDefault E then True
      else if basePriority = PriorityDefault E \<and> priority' \<le> PriorityFallback E then True
      else False)"

definition udpServers :: "env \<Rightarrow> NameServerGroup \<Rightarrow> string list" where
  "udpServers E nsGroup =
     map (getNSHostPort E) (filter (\<lambda>ns. NSType ns = UDPNameServerType) (NameServers nsGroup))"

text \<open>
  The loop of \<^verbatim>\<open>createHandlersForDomainGroup\<close> from index \<open>i\<close> on: \<^verbatim>\<open>break\<close> ends it
  with what was collected, an error of the resolver constructor ends it with the error,
  a group left without UDP servers is skipped (\<^verbatim>\<open>continue\<close>) and still takes its index.
  The resolver built for a skipped group is stopped before it was registered anywhere;
  that call is not logged.
\<close>

fun createHandlersFrom ::
  "env \<Rightarrow> string \<Rightarrow> int \<Rightarrow> nat \<Rightarrow> NameServerGroup list \<Rightarrow> error + handlerWrapper list" where
  "createHandlersFrom E zone basePriority i [] = Inr []"
| "createHandlersFrom E zone basePriority i (nsGroup # rest) =
     (let priority' = go_int (basePriority - int i) in
      if leaksPriority E basePriority priority' then Inr []
      else if newUpstreamResolverFails E zone then Inl (ErrWrap ''create upstream resolver'' ErrCreateUpstreamResolver)
      else if length (udpServers E nsGroup) = 0 then createHandlersFrom E zone basePriority (Suc i) rest
      else (case createHandlersFrom E zone basePriority (Suc i) rest of
              Inl err \<Rightarrow> Inl err
            | Inr muxUpdates \<Rightarrow>
                Inr (\<lparr>domain = zone,
                      handler = UpstreamResolver zone (udpServers E nsGroup) (GroupCallbacks nsGroup priority'),
                      priority = priority'\<rparr> # muxUpdates)))"

definition createHandlersForDomainGroup ::
  "env \<Rightarrow> nsGroupsByDomain \<Rightarrow> int \<Rightarrow> error + handlerWrapper list" where
  "createHandlersForDomainGroup E domainGroup basePriority =
     createHandlersFrom E (gdomain domainGroup) basePriority 0 (groups domainGroup)"

text \<open>The first loop of \<^verbatim>\<open>buildUpstreamHandlerUpdate\<close>: the error it returns, if any.\<close>

fun checkNameServerGroups :: "NameServerGroup list \<Rightarrow> error option" where
  "checkNameServerGroups [] = None"
| "checkNameServerGroups (nsGroup # rest) =
     (if length (NameServers nsGroup) = 0 then checkNameServerGroups rest
      else if \<not> Primary nsGroup \<and> length (nsgDomains nsGroup) = 0 then Some ErrEmptyDomainList
      else if [] \<in> set (nsgDomains nsGroup) then Some ErrEmptyDomainElement
      else checkNameServerGroups rest)"

definition basePriorityOf :: "env \<Rightarrow> string \<Rightarrow> int" where
  "basePriorityOf E d = (if d = RootZone then PriorityDefault E else PriorityUpstream E)"

fun handlersOfGroups :: "env \<Rightarrow> nsGroupsByDomain list \<Rightarrow> error + handlerWrapper list" where
  "handlersOfGroups E [] = Inr []"
| "handlersOfGroups E (domainGroup # rest) =
     (case createHandlersForDomainGroup E domainGroup (basePriorityOf E (gdomain domainGroup)) of
        Inl err \<Rightarrow> Inl err
      | Inr updates \<Rightarrow>
          (case handlersOfGroups E rest of
             Inl err \<Rightarrow> Inl err
           | Inr muxUpdates \<Rightarrow> Inr (updates @ muxUpdates)))"

definition buildUpstreamHandlerUpdate :: "env \<Rightarrow> NameServerGroup list \<Rightarrow> error + handlerWrapper list" where
  "buildUpstreamHandlerUpdate E nameServerGroups =
     (case checkNameServerGroups nameServerGroups of
        Some err \<Rightarrow> Inl err
      | None \<Rightarrow> handlersOfGroups E (groupNSGroupsByDomain nameServerGroups))"

subsection \<open>Swapping the handler chain\<close>

definition addHostRootZone :: "env \<Rightarrow> DefaultServer \<Rightarrow> DefaultServer" where
  "addHostRootZone E s =
     (if length (hostsDNSHolder s) = 0 then s
      else if newUpstreamResolverFails E RootZone then s
      else registerHandler [RootZone]
             (UpstreamResolver RootZone (hostsDNSHolder s) AlwaysActive) (PriorityDefault E) s)"

definition updateMux :: "env \<Rightarrow> handlerWrapper list \<Rightarrow> DefaultServer \<Rightarrow> DefaultServer" where
  "updateMux E muxUpdates s =
     (let s1 = foldl (\<lambda>st existing.
                   emit (HandlerStop (handler existing))
                     (deregisterHandler [domain existing] (priority existing) st))
                 s (map snd (dnsMuxMap s));
          s2 = foldl (\<lambda>st update. registerHandler [domain update] (handler update) (priority update) st)
                 s1 muxUpdates;
          muxUpdateMap = foldl (\<lambda>m update. AList.update (handlerID E (handler update)) update m)
                           [] muxUpdates;
          containsRootUpdate = list_ex (\<lambda>update. domain update = RootZone) muxUpdates;
          s3 = (if \<not> containsRootUpdate
                   \<and> list_ex (\<lambda>existing. domain existing = RootZone) (map snd (dnsMuxMap s))
                then addHostRootZone E s2 else s2)
      in s3\<lparr>dnsMuxMap := muxUpdateMap\<rparr>)"

subsection \<open>Status of the name-server groups\<close>

fun joinWith :: "string \<Rightarrow> string list \<Rightarrow> string" where
  "joinWith sep [] = []"
| "joinWith sep [x] = x"
| "joinWith sep (x # y # ys) = x @ sep @ joinWith sep (y # ys)"

text \<open>\<^verbatim>\<open>%v\<close> of a slice of strings.\<close>

definition fmtSlice :: "string list \<Rightarrow> string" where
  "fmtSlice xs = ''['' @ joinWith '' '' xs @ '']''"

definition groupServers :: "NameServerGroup \<Rightarrow> string list" where
  "groupServers nsGroup = map (\<lambda>ns. IP ns @ '':'' @ fmtInt (Port ns)) (NameServers nsGroup)"

definition generateGroupKey :: "NameServerGroup \<Rightarrow> string" where
  "generateGroupKey nsGroup =
     fmtSlice (groupServers nsGroup) @ ''_'' @ fmtSlice (nsgDomains nsGroup)"

definition updateNSGroupStates :: "NameServerGroup list \<Rightarrow> DefaultServer \<Rightarrow> DefaultServer" where
  "updateNSGroupStates nsGroups s =
     s\<lparr>dnsStates :=
         map (\<lambda>nsGroup. \<lparr>stID = generateGroupKey nsGroup, stServers = groupServers nsGroup,
                        stDomains = nsgDomains nsGroup, stEnabled = True, stError = None\<rparr>)
             nsGroups\<rparr>"

fun setFirstState :: "string \<Rightarrow> bool \<Rightarrow> string option \<Rightarrow> NSGroupState list \<Rightarrow> NSGroupState list" where
  "setFirstState k enabled err [] = []"
| "setFirstState k enabled err (state # states) =
     (if stID state = k then state\<lparr>stEnabled := enabled, stError := err\<rparr> # states
      else state # setFirstState k enabled err states)"

definition updateNSState ::
  "NameServerGroup \<Rightarrow> string option \<Rightarrow> bool \<Rightarrow> DefaultServer \<Rightarrow> DefaultServer" where
  "updateNSState nsGroup err enabled s =
     s\<lparr>dnsStates := setFirstState (generateGroupKey nsGroup) enabled err (dnsStates s)\<rparr>"

subsection \<open>Applying an update\<close>

text \<open>
  \<^verbatim>\<open>applyConfiguration\<close> returns its error beside the server: what it did before the
  error stays done. The errors of \<^verbatim>\<open>enableDNS\<close> and \<^verbatim>\<open>disableDNS\<close> are logged and
  dropped.
\<close>

definition applyConfiguration :: "env \<Rightarrow> Config \<Rightarrow> DefaultServer \<Rightarrow> error option \<times> DefaultServer" where
  "applyConfiguration E update s =
     (let s1 = (if ServiceEnable update then snd (enableDNS E s)
                else if \<not> permanent s then disableDNS E s
                else s);
          (localMuxUpdates, localRecords') = buildLocalHandlerUpdate E (CustomZones update)
      in case buildUpstreamHandlerUpdate E (NameServerGroups update) of
           Inl err \<Rightarrow> (Some (ErrWrap ''upstream handler updater'' err), s1)
         | Inr upstreamMuxUpdates \<Rightarrow>
             let s2 = updateMux E (localMuxUpdates @ upstreamMuxUpdates) s1;
                 s3 = s2\<lparr>localRecords := localRecords'\<rparr>;
                 s4 = s3\<lparr>currentConfig :=
                          dnsConfigToHostDNSConfig E update (RuntimeIP E) (RuntimePort E)\<rparr>;
                 s5 = (if RuntimePort E \<noteq> defaultPort \<and> \<not> supportCustomPort E (hostManager s4)
                       then s4\<lparr>currentConfig := (currentConfig s4)\<lparr>RouteAll := False\<rparr>\<rparr>
                       else s4);
                 s6 = applyHostConfig E s5;
                 s7 = emit PersistState s6;
                 s8 = (if searchDomainNotifier s7
                       then emit (OnNewSearchDomains (SearchDomains s7)) s7 else s7)
             in (None, updateNSGroupStates (NameServerGroups update) s8))"

definition UpdateDNSServer ::
  "env \<Rightarrow> 64 word \<Rightarrow> Config \<Rightarrow> DefaultServer \<Rightarrow> error option \<times> DefaultServer" where
  "UpdateDNSServer E serial update s =
     (if ctxErr s then (Some ErrContext, s)
      else if serial < updateSerial s then (Some (ErrStaleSerial (updateSerial s - serial)), s)
      else
        let hash = hashConfig E update in
        if previousConfigHash s = hash then (None, s\<lparr>updateSerial := serial\<rparr>)
        else (case applyConfiguration E update s of
                (Some err, s') \<Rightarrow> (Some (ErrWrap ''apply configuration'' err), s')
              | (None, s') \<Rightarrow> (None, s'\<lparr>updateSerial := serial, previousConfigHash := hash\<rparr>)))"

subsection \<open>The callbacks of an upstream group\<close>

definition setDisabled :: "nat \<Rightarrow> bool \<Rightarrow> DefaultServer \<Rightarrow> DefaultServer" where
  "setDisabled i b s =
     s\<lparr>currentConfig := (currentConfig s)
         \<lparr>Domains := (Domains (currentConfig s))
            [i := (Domains (currentConfig s) ! i)\<lparr>Disabled := b\<rparr>]\<rparr>\<rparr>"

text \<open>The loop of \<^verbatim>\<open>deactivate\<close> over \<^verbatim>\<open>currentConfig.Domains\<close>, from index \<open>i\<close> on.\<close>

fun deactivateLoop ::
  "int \<Rightarrow> nat \<Rightarrow> DomainConfig list \<Rightarrow> (string \<times> int) list \<times> DefaultServer
     \<Rightarrow> (string \<times> int) list \<times> DefaultServer" where
  "deactivateLoop p i [] (removeIndex, s) = (removeIndex, s)"
| "deactivateLoop p i (item # items) (removeIndex, s) =
     (if map_of removeIndex (dcDomain item) \<noteq> None
      then deactivateLoop p (Suc i) items
             (AList.update (dcDomain item) (int i) removeIndex,
              deregisterHandler [dcDomain item] p (setDisabled i True s))
      else deactivateLoop p (Suc i) items (removeIndex, s))"

text \<open>\<^verbatim>\<open>deactivate\<close> returns the \<^verbatim>\<open>removeIndex\<close> it leaves in the closure.\<close>

definition deactivate ::
  "env \<Rightarrow> NameServerGroup \<Rightarrow> int \<Rightarrow> string \<Rightarrow> DefaultServer
     \<Rightarrow> (string \<times> int) list \<times> DefaultServer" where
  "deactivate E nsGroup p err s =
     (let removeIndex0 = foldl (\<lambda>m d. AList.update d (- 1) m) [] (nsgDomains nsGroup);
          (removeIndex1, s1) =
            (if Primary nsGroup
             then (AList.update RootZone (- 1) removeIndex0,
                   deregisterHandler [RootZone] p
                     (s\<lparr>currentConfig := (currentConfig s)\<lparr>RouteAll := False\<rparr>\<rparr>))
             else (removeIndex0, s));
          (removeIndex, s2) = deactivateLoop p 0 (Domains (currentConfig s1)) (removeIndex1, s1);
          s3 = applyHostConfig E s2;
          s4 = emit PersistState s3;
          s5 = (if goosIsAndroid E \<and> Primary nsGroup \<and> length (hostsDNSHolder s4) > 0
                then addHostRootZone E s4 else s4)
      in (removeIndex, updateNSState nsGroup (Some err) False s5))"

text \<open>
  The loop of \<^verbatim>\<open>reactivate\<close> over \<^verbatim>\<open>removeIndex\<close>. An index below \<open>-1\<close> passes the
  two comparisons and then indexes the slice: Go panics, the model returns \<open>None\<close>.
\<close>

fun reactivateLoop :: "handler \<Rightarrow> int \<Rightarrow> (string \<times> int) list \<Rightarrow> DefaultServer \<Rightarrow> DefaultServer option" where
  "reactivateLoop h p [] s = Some s"
| "reactivateLoop h p ((d, i) # rest) s =
     (if i = - 1 \<or> i \<ge> int (length (Domains (currentConfig s))) then reactivateLoop h p rest s
      else if i < 0 then None
      else if dcDomain (Domains (currentConfig s) ! nat i) \<noteq> d then reactivateLoop h p rest s
      else reactivateLoop h p rest (registerHandler [d] h p (setDisabled (nat i) False s)))"

definition reactivate ::
  "env \<Rightarrow> (string \<times> int) list \<Rightarrow> NameServerGroup \<Rightarrow> handler \<Rightarrow> int \<Rightarrow> DefaultServer
     \<Rightarrow> DefaultServer option" where
  "reactivate E removeIndex nsGroup h p s =
     (case reactivateLoop h p removeIndex s of
        None \<Rightarrow> None
      | Some s1 \<Rightarrow>
          let s2 = (if Primary nsGroup
                    then registerHandler [RootZone] h p
                           (s1\<lparr>currentConfig := (currentConfig s1)\<lparr>RouteAll := True\<rparr>\<rparr>)
                    else s1);
              s3 = applyHostConfig E s2
          in Some (updateNSState nsGroup None True s3))"

text \<open>The server as \<^verbatim>\<open>newDefaultServer\<close> leaves it: empty maps, the no-op host manager,
  zero serial and hash, the zero host configuration.\<close>

definition newDefaultServer :: "bool \<Rightarrow> DefaultServer" where
  "newDefaultServer disableSys' =
     \<lparr>ctxErr = False, disableSys = disableSys', dnsMuxMap = [], localRecords = [],
      hostManager = noopHostConfigurator, updateSerial = 0, previousConfigHash = 0,
      currentConfig = \<lparr>Domains = [], RouteAll = False, ServerIP = ''invalid IP'', ServerPort = 0\<rparr>,
      extraDomains = [], permanent = False, hostsDNSHolder = [], searchDomainNotifier = False,
      dnsStates = [], events = []\<rparr>"

section \<open>Concrete inputs\<close>

text \<open>
  An environment to evaluate the operations in: the tiers 100, 50, 1 and -100 (any
  values in this order would do), a hash
  that tells configurations apart by their numbers of groups and zones, identity
  normalisers but for the trailing dot, a host configuration with one entry per domain
  of a group that has name servers, and a platform where every constructor succeeds.
\<close>

definition exampleHostConfig :: "Config \<Rightarrow> string \<Rightarrow> int \<Rightarrow> HostDNSConfig" where
  "exampleHostConfig c ip port =
     \<lparr>Domains =
        concat (map (\<lambda>nsGroup. map (\<lambda>d. \<lparr>Disabled = False, dcDomain = d, MatchOnly = False\<rparr>)
                                  (nsgDomains nsGroup))
                    (filter (\<lambda>nsGroup. NameServers nsGroup \<noteq> []) (NameServerGroups c))),
      RouteAll = list_ex (\<lambda>nsGroup. NameServers nsGroup \<noteq> [] \<and> Primary nsGroup) (NameServerGroups c),
      ServerIP = ip, ServerPort = port\<rparr>"

fun exampleHandlerID :: "handler \<Rightarrow> string" where
  "exampleHandlerID LocalResolver = ''local''"
| "exampleHandlerID (UpstreamResolver z servers cb) = z @ ''|'' @ concat servers"
| "exampleHandlerID (ExternalHandler n) = n"

definition exampleEnv :: env where
  "exampleEnv =
     \<lparr>PriorityLocal = 100, PriorityUpstream = 50, PriorityDefault = 1, PriorityFallback = - 100,
      DefaultClass = ''IN'',
      hashConfig = (\<lambda>c. 1 + of_nat (length (NameServerGroups c)) + 1000 * of_nat (length (CustomZones c))),
      PunycodeString = (\<lambda>d. d), ToLower = (\<lambda>d. d),
      Fqdn = (\<lambda>d. if d \<noteq> [] \<and> last d = CHR ''.'' then d else d @ ''.''),
      NormalizeZone = (\<lambda>d. d),
      dnsConfigToHostDNSConfig = exampleHostConfig,
      newUpstreamResolverFails = (\<lambda>z. False),
      handlerID = exampleHandlerID,
      listenFails = False, RuntimeIP = ''100.64.0.1'', RuntimeIPIsValid = True, RuntimePort = 53,
      netstackIsEnabled = False, goosIsAndroid = False,
      initialize = Some (configurator True (Some [''192.168.1.1'']) False),
      noopSupportCustomPort = True, noopOriginalNameservers = None,
      parsesAsIPv6 = (\<lambda>a. False)\<rparr>"

definition udpServer :: "string \<Rightarrow> NameServer" where
  "udpServer ip = \<lparr>IP = ip, NSType = UDPNameServerType, Port = 53\<rparr>"

definition tcpServer :: "string \<Rightarrow> NameServer" where
  "tcpServer ip = \<lparr>IP = ip, NSType = OtherNameServerType 2, Port = 53\<rparr>"

definition corpGroup :: NameServerGroup where
  "corpGroup = \<lparr>NameServers = [udpServer ''10.0.0.53''], nsgDomains = [''corp.local.''], Primary = False\<rparr>"

definition primaryGroup :: NameServerGroup where
  "primaryGroup = \<lparr>NameServers = [udpServer ''8.8.8.8''], nsgDomains = [], Primary = True\<rparr>"

definition splitConfig :: Config where
  "splitConfig = \<lparr>ServiceEnable = True, CustomZones = [], NameServerGroups = [corpGroup, primaryGroup]\<rparr>"

definition primaryOnlyConfig :: Config where
  "primaryOnlyConfig = \<lparr>ServiceEnable = True, CustomZones = [], NameServerGroups = [primaryGroup]\<rparr>"

text \<open>The server after a first update with serial 10.\<close>

definition appliedServer :: DefaultServer where
  "appliedServer = snd (UpdateDNSServer exampleEnv 10 splitConfig (newDefaultServer False))"

text \<open>Two malformed groups, both non-primary with no domain: the first has no name
  server either, the second has one.\<close>

definition emptyGroup :: NameServerGroup where
  "emptyGroup = \<lparr>NameServers = [], nsgDomains = [], Primary = False\<rparr>"

definition noDomainGroup :: NameServerGroup where
  "noDomainGroup = \<lparr>NameServers = [udpServer ''10.0.0.1''], nsgDomains = [], Primary = False\<rparr>"

definition emptyGroupConfig :: Config where
  "emptyGroupConfig = \<lparr>ServiceEnable = True, CustomZones = [], NameServerGroups = [emptyGroup]\<rparr>"

definition noDomainConfig :: Config where
  "noDomainConfig =
     \<lparr>ServiceEnable = True, CustomZones = [],
      NameServerGroups = [corpGroup, primaryGroup, noDomainGroup]\<rparr>"

text \<open>The server after \<^verbatim>\<open>Stop()\<close>: its context is cancelled.\<close>

definition stoppedServer :: DefaultServer where
  "stoppedServer = Stop exampleEnv appliedServer"

text \<open>Fifty groups for the zone \<open>internal.\<close>: the first has a TCP name server only,
  the other forty-nine have a UDP name server.\<close>

definition internalGroup :: NameServerGroup where
  "internalGroup = \<lparr>NameServers = [udpServer ''10.1.0.1''], nsgDomains = [''internal.''], Primary = False\<rparr>"

definition tcpOnlyGroup :: NameServerGroup where
  "tcpOnlyGroup = \<lparr>NameServers = [tcpServer ''10.1.0.2''], nsgDomains = [''internal.''], Primary = False\<rparr>"

definition overflowGroups :: "NameServerGroup list" where
  "overflowGroups = tcpOnlyGroup # replicate 49 internalGroup"

text \<open>The server after one \<^verbatim>\<open>RegisterHandler\<close> for a routed domain.\<close>

definition routedServer :: DefaultServer where
  "routedServer = RegisterHandler exampleEnv [''example.com''] (ExternalHandler ''dnsroute'') 75 appliedServer"

text \<open>The handlers of the two groups of the first update, and the server after the
  group of \<open>corp.local.\<close>, or the primary group, was deactivated.\<close>

definition corpHandler :: handler where
  "corpHandler = UpstreamResolver ''corp.local.'' [''10.0.0.53:53''] (GroupCallbacks corpGroup 50)"

definition primaryHandler :: handler where
  "primaryHandler = UpstreamResolver ''.'' [''8.8.8.8:53''] (GroupCallbacks primaryGroup 1)"

definition corpDeactivated :: DefaultServer where
  "corpDeactivated = snd (deactivate exampleEnv corpGroup 50 ''timeout'' appliedServer)"

definition primaryDeactivated :: DefaultServer where
  "primaryDeactivated = snd (deactivate exampleEnv primaryGroup 1 ''timeout'' appliedServer)"

text \<open>A server whose system DNS management is disabled, after a first update with
  serial 10 that has a custom zone beside the two groups, and one \<^verbatim>\<open>RegisterHandler\<close>
  for a routed domain: the host manager stays the no-op one; the local resolver, the two
  upstream resolvers and the handler registered from outside are in the chain.\<close>

definition zonedConfig :: Config where
  "zonedConfig =
     \<lparr>ServiceEnable = True,
      CustomZones = [\<lparr>czDomain = ''netbird.cloud.'',
                      Records = [\<lparr>Name = ''peer.netbird.cloud.'', Type = 1, Class = ''IN'',
                                  TTL = 300, RData = ''100.64.0.2''\<rparr>]\<rparr>],
      NameServerGroups = [corpGroup, primaryGroup]\<rparr>"

definition sysDisabledServer :: DefaultServer where
  "sysDisabledServer =
     RegisterHandler exampleEnv [''example.com''] (ExternalHandler ''dnsroute'') 75
       (snd (UpdateDNSServer exampleEnv 10 zonedConfig (newDefaultServer True)))"

section \<open>Predicates of the statements\<close>

text \<open>The second server is the first with more events in its log and no other change.\<close>

definition onlyEvents :: "DefaultServer \<Rightarrow> DefaultServer \<Rightarrow> bool" where
  "onlyEvents s s' = (\<exists>new. s' = s\<lparr>events := events s @ new\<rparr>)"

text \<open>The tiers are ordered as the spec requires, and are values of Go's \<^verbatim>\<open>int\<close>.\<close>

definition tiersOrdered :: "env \<Rightarrow> bool" where
  "tiersOrdered E =
     (- (2 ^ 63) \<le> PriorityFallback E \<and> PriorityFallback E < PriorityDefault E
      \<and> PriorityDefault E < PriorityUpstream E \<and> PriorityUpstream E < 2 ^ 63)"

text \<open>A malformed group: not primary with no domains, or with an empty string among
  its domains.\<close>

definition malformedGroup :: "NameServerGroup \<Rightarrow> bool" where
  "malformedGroup nsGroup =
     ((\<not> Primary nsGroup \<and> nsgDomains nsGroup = []) \<or> [] \<in> set (nsgDomains nsGroup))"

text \<open>The tier below a base priority, and the handler that
  \<^verbatim>\<open>createHandlersForDomainGroup\<close> builds for the group at index \<open>k\<close> of a zone.\<close>

definition lowerTier :: "env \<Rightarrow> int \<Rightarrow> int" where
  "lowerTier E basePriority =
     (if basePriority = PriorityUpstream E then PriorityDefault E else PriorityFallback E)"

definition groupHandler :: "env \<Rightarrow> string \<Rightarrow> int \<Rightarrow> nat \<times> NameServerGroup \<Rightarrow> handlerWrapper" where
  "groupHandler E zone basePriority kg =
     \<lparr>domain = zone,
      handler = UpstreamResolver zone (udpServers E (snd kg))
                  (GroupCallbacks (snd kg) (basePriority - int (fst kg))),
      priority = basePriority - int (fst kg)\<rparr>"

text \<open>The groups of a zone that get a handler: those at an index below the gap to the
  next tier that have a UDP name server, each with its index.\<close>

definition servedGroups :: "env \<Rightarrow> int \<Rightarrow> NameServerGroup list \<Rightarrow> (nat \<times> NameServerGroup) list" where
  "servedGroups E basePriority gs =
     filter (\<lambda>kg. int (fst kg) < basePriority - lowerTier E basePriority \<and> udpServers E (snd kg) \<noteq> [])
       (enumerate 0 gs)"

text \<open>Every reference count that the map holds is positive and a value of Go's
  \<^verbatim>\<open>int\<close>. The map of a new server is empty, and the operations keep the property as
  long as no count overflows.\<close>

definition refsInRange :: "(string \<times> int) list \<Rightarrow> bool" where
  "refsInRange m = (\<forall>z \<in> set (map fst m). 0 < refcount m z \<and> refcount m z < 2 ^ 63)"

text \<open>Modelled from the spec: what the calls of the host manager do to the DNS of the
  host; the back ends are not in the file. Section 6 of the spec: \<^verbatim>\<open>applyDNSConfig\<close>
  makes the virtual resolver active, \<^verbatim>\<open>restoreHostDNS\<close> reverts to the captured
  originals. The no-op configurator does nothing, and a restore that fails leaves the
  host as it was.\<close>

datatype hostDNS = CapturedOriginal | VirtualResolver HostDNSConfig

fun hostDNSStep :: "hostManager \<Rightarrow> hostDNS \<Rightarrow> event \<Rightarrow> hostDNS" where
  "hostDNSStep noopHostConfigurator h e = h"
| "hostDNSStep (configurator port ons rerr) h (ApplyDNSConfig config) = VirtualResolver config"
| "hostDNSStep (configurator port ons rerr) h RestoreHostDNS = (if rerr then h else CapturedOriginal)"
| "hostDNSStep (configurator port ons rerr) h e = h"

definition hostDNSAfter :: "hostManager \<Rightarrow> event list \<Rightarrow> hostDNS \<Rightarrow> hostDNS" where
  "hostDNSAfter m evs h = foldl (hostDNSStep m) h evs"








section \<open>Properties\<close>

subsection \<open>What the helper operations leave alone\<close>

lemma onlyEvents_refl: "onlyEvents s s"
  unfolding onlyEvents_def by (rule exI [of _ "[]"]) simp

lemma onlyEvents_trans: "onlyEvents s t \<Longrightarrow> onlyEvents t u \<Longrightarrow> onlyEvents s u"
  by (auto simp: onlyEvents_def)

lemma onlyEvents_fields:
  assumes "onlyEvents s s'"
  shows "ctxErr s' = ctxErr s" "disableSys s' = disableSys s" "dnsMuxMap s' = dnsMuxMap s"
    "localRecords s' = localRecords s" "hostManager s' = hostManager s"
    "updateSerial s' = updateSerial s" "previousConfigHash s' = previousConfigHash s"
    "currentConfig s' = currentConfig s" "extraDomains s' = extraDomains s"
    "permanent s' = permanent s" "hostsDNSHolder s' = hostsDNSHolder s"
    "searchDomainNotifier s' = searchDomainNotifier s" "dnsStates s' = dnsStates s"
  using assms by (auto simp: onlyEvents_def)

lemma onlyEvents_emit: "onlyEvents s (emit e s)"
  by (auto simp: onlyEvents_def emit_def)

lemma onlyEvents_registerHandler: "onlyEvents s (registerHandler ds h p s)"
  by (auto simp: onlyEvents_def registerHandler_def)

lemma onlyEvents_deregisterHandler: "onlyEvents s (deregisterHandler ds p s)"
  by (auto simp: onlyEvents_def deregisterHandler_def)

lemma onlyEvents_registerFallback: "onlyEvents s (registerFallback E c s)"
  by (auto simp: registerFallback_def onlyEvents_refl onlyEvents_registerHandler split: option.splits)

lemma onlyEvents_applyHostConfig: "onlyEvents s (applyHostConfig E s)"
  unfolding applyHostConfig_def Let_def
  by (auto intro: onlyEvents_refl onlyEvents_trans [OF onlyEvents_emit onlyEvents_registerFallback])

lemma onlyEvents_addHostRootZone: "onlyEvents s (addHostRootZone E s)"
  by (auto simp: addHostRootZone_def onlyEvents_refl onlyEvents_registerHandler)

lemma disableDNS_fields:
  "ctxErr (disableDNS E s) = ctxErr s" "disableSys (disableDNS E s) = disableSys s"
  "dnsMuxMap (disableDNS E s) = dnsMuxMap s" "localRecords (disableDNS E s) = localRecords s"
  "updateSerial (disableDNS E s) = updateSerial s"
  "previousConfigHash (disableDNS E s) = previousConfigHash s"
  "currentConfig (disableDNS E s) = currentConfig s" "extraDomains (disableDNS E s) = extraDomains s"
  "permanent (disableDNS E s) = permanent s" "hostsDNSHolder (disableDNS E s) = hostsDNSHolder s"
  "searchDomainNotifier (disableDNS E s) = searchDomainNotifier s" "dnsStates (disableDNS E s) = dnsStates s"
  by (simp_all add: disableDNS_def isUsingNoopHostManager_def emit_def deregisterHandler_def Let_def
      split: option.splits)

lemma enableDNS_fields:
  "ctxErr (snd (enableDNS E s)) = ctxErr s" "disableSys (snd (enableDNS E s)) = disableSys s"
  "dnsMuxMap (snd (enableDNS E s)) = dnsMuxMap s" "localRecords (snd (enableDNS E s)) = localRecords s"
  "updateSerial (snd (enableDNS E s)) = updateSerial s"
  "previousConfigHash (snd (enableDNS E s)) = previousConfigHash s"
  "currentConfig (snd (enableDNS E s)) = currentConfig s" "extraDomains (snd (enableDNS E s)) = extraDomains s"
  "permanent (snd (enableDNS E s)) = permanent s" "hostsDNSHolder (snd (enableDNS E s)) = hostsDNSHolder s"
  "searchDomainNotifier (snd (enableDNS E s)) = searchDomainNotifier s" "dnsStates (snd (enableDNS E s)) = dnsStates s"
  by (simp_all add: enableDNS_def isUsingNoopHostManager_def emit_def Let_def
      split: option.splits)

lemma serviceStep_fields:
  assumes "s1 = (if ServiceEnable c then snd (enableDNS E s)
                 else if \<not> permanent s then disableDNS E s else s)"
  shows "dnsMuxMap s1 = dnsMuxMap s \<and> localRecords s1 = localRecords s
    \<and> updateSerial s1 = updateSerial s \<and> previousConfigHash s1 = previousConfigHash s
    \<and> currentConfig s1 = currentConfig s \<and> extraDomains s1 = extraDomains s
    \<and> ctxErr s1 = ctxErr s \<and> searchDomainNotifier s1 = searchDomainNotifier s"
  using assms by (simp add: enableDNS_fields disableDNS_fields)

lemma updateMux_fields:
  "localRecords (updateMux E ws s) = localRecords s \<and> updateSerial (updateMux E ws s) = updateSerial s
   \<and> previousConfigHash (updateMux E ws s) = previousConfigHash s
   \<and> extraDomains (updateMux E ws s) = extraDomains s
   \<and> hostManager (updateMux E ws s) = hostManager s
   \<and> searchDomainNotifier (updateMux E ws s) = searchDomainNotifier s"
proof -
  have a: "onlyEvents t (foldl (\<lambda>st existing.
                   emit (HandlerStop (handler existing))
                     (deregisterHandler [domain existing] (priority existing) st)) t xs)" for t xs
  proof (induction xs arbitrary: t)
    case Nil
    then show ?case by (simp add: onlyEvents_refl)
  next
    case (Cons x xs)
    have "onlyEvents t (emit (HandlerStop (handler x)) (deregisterHandler [domain x] (priority x) t))"
      by (rule onlyEvents_trans [OF onlyEvents_deregisterHandler onlyEvents_emit])
    then show ?case using Cons.IH onlyEvents_trans by fastforce
  qed
  have b: "onlyEvents t (foldl (\<lambda>st update. registerHandler [domain update] (handler update) (priority update) st)
                 t xs)" for t xs
  proof (induction xs arbitrary: t)
    case Nil
    then show ?case by (simp add: onlyEvents_refl)
  next
    case (Cons x xs)
    show ?case using Cons.IH onlyEvents_trans [OF onlyEvents_registerHandler] by fastforce
  qed
  define s2 where "s2 = foldl (\<lambda>st update. registerHandler [domain update] (handler update) (priority update) st)
                 (foldl (\<lambda>st existing.
                   emit (HandlerStop (handler existing))
                     (deregisterHandler [domain existing] (priority existing) st)) s (map snd (dnsMuxMap s))) ws"
  have s2: "onlyEvents s s2"
    unfolding s2_def by (rule onlyEvents_trans [OF a b])
  have s3: "onlyEvents s (addHostRootZone E s2)"
    by (rule onlyEvents_trans [OF s2 onlyEvents_addHostRootZone])
  show ?thesis
    using onlyEvents_fields [OF s2] onlyEvents_fields [OF s3]
    by (simp add: updateMux_def Let_def s2_def [symmetric])
qed

subsection \<open>Updates that are rejected and updates that are applied\<close>

lemma checkNameServerGroups_malformed:
  "\<exists>nsGroup \<in> set nsGroups. NameServers nsGroup \<noteq> [] \<and> malformedGroup nsGroup
   \<Longrightarrow> \<exists>err. checkNameServerGroups nsGroups = Some err"
  by (induction nsGroups) (auto simp: malformedGroup_def)

lemma applyConfiguration_rejected:
  assumes "checkNameServerGroups (NameServerGroups c) = Some err"
  shows "\<exists>s1. applyConfiguration E c s = (Some (ErrWrap ''upstream handler updater'' err), s1)
    \<and> dnsMuxMap s1 = dnsMuxMap s \<and> localRecords s1 = localRecords s
    \<and> updateSerial s1 = updateSerial s \<and> previousConfigHash s1 = previousConfigHash s
    \<and> currentConfig s1 = currentConfig s \<and> extraDomains s1 = extraDomains s"
proof -
  define s1 where "s1 = (if ServiceEnable c then snd (enableDNS E s)
                 else if \<not> permanent s then disableDNS E s else s)"
  have "applyConfiguration E c s = (Some (ErrWrap ''upstream handler updater'' err), s1)"
    using assms
    by (simp add: applyConfiguration_def buildUpstreamHandlerUpdate_def s1_def Let_def split: prod.splits)
  then show ?thesis
    using serviceStep_fields [OF s1_def] by simp
qed

lemma createHandlersFrom_total:
  "\<not> newUpstreamResolverFails E zone \<Longrightarrow> \<exists>ws. createHandlersFrom E zone base i gs = Inr ws"
proof (induction gs arbitrary: i)
  case Nil
  then show ?case by simp
next
  case (Cons g gs)
  obtain ws where "createHandlersFrom E zone base (Suc i) gs = Inr ws"
    using Cons by blast
  then show ?case using Cons.prems by (simp add: Let_def)
qed

lemma handlersOfGroups_total:
  "\<forall>z. \<not> newUpstreamResolverFails E z \<Longrightarrow> \<exists>ws. handlersOfGroups E dgs = Inr ws"
proof (induction dgs)
  case Nil
  then show ?case by simp
next
  case (Cons dg dgs)
  obtain ws where "handlersOfGroups E dgs = Inr ws" using Cons by blast
  moreover obtain us where "createHandlersForDomainGroup E dg (basePriorityOf E (gdomain dg)) = Inr us"
    unfolding createHandlersForDomainGroup_def
    using createHandlersFrom_total [of E "gdomain dg"] Cons.prems by blast
  ultimately show ?case by simp
qed

lemma applyConfiguration_applied:
  assumes "buildUpstreamHandlerUpdate E (NameServerGroups c) = Inr ups"
  shows "\<exists>s'. applyConfiguration E c s = (None, s')
    \<and> Domains (currentConfig s') = Domains (dnsConfigToHostDNSConfig E c (RuntimeIP E) (RuntimePort E))
    \<and> ServerIP (currentConfig s') = ServerIP (dnsConfigToHostDNSConfig E c (RuntimeIP E) (RuntimePort E))
    \<and> localRecords s' = snd (buildLocalHandlerUpdate E (CustomZones c))
    \<and> updateSerial s' = updateSerial s \<and> previousConfigHash s' = previousConfigHash s
    \<and> extraDomains s' = extraDomains s"
proof -
  define s1 where "s1 = (if ServiceEnable c then snd (enableDNS E s)
                 else if \<not> permanent s then disableDNS E s else s)"
  define cfg where "cfg = dnsConfigToHostDNSConfig E c (RuntimeIP E) (RuntimePort E)"
  define s2 where "s2 = updateMux E (fst (buildLocalHandlerUpdate E (CustomZones c)) @ ups) s1"
  define s4 where "s4 = s2\<lparr>localRecords := snd (buildLocalHandlerUpdate E (CustomZones c)),
                          currentConfig := cfg\<rparr>"
  define s5 where "s5 = (if RuntimePort E \<noteq> defaultPort \<and> \<not> supportCustomPort E (hostManager s4)
                       then s4\<lparr>currentConfig := (currentConfig s4)\<lparr>RouteAll := False\<rparr>\<rparr>
                       else s4)"
  define s7 where "s7 = emit PersistState (applyHostConfig E s5)"
  define s8 where "s8 = (if searchDomainNotifier s7
                       then emit (OnNewSearchDomains (SearchDomains s7)) s7 else s7)"
  have eq: "applyConfiguration E c s = (None, updateNSGroupStates (NameServerGroups c) s8)"
    using assms
    unfolding applyConfiguration_def s8_def s7_def s5_def s4_def s2_def cfg_def s1_def Let_def
    by (simp split: prod.splits)
  have f1: "updateSerial s1 = updateSerial s" "previousConfigHash s1 = previousConfigHash s"
    "extraDomains s1 = extraDomains s"
    using serviceStep_fields [OF s1_def] by simp_all
  have f2: "updateSerial s2 = updateSerial s" "previousConfigHash s2 = previousConfigHash s"
    "extraDomains s2 = extraDomains s"
    using f1 updateMux_fields [of E _ s1] by (simp_all add: s2_def)
  have f5: "updateSerial s5 = updateSerial s" "previousConfigHash s5 = previousConfigHash s"
    "extraDomains s5 = extraDomains s" "Domains (currentConfig s5) = Domains cfg"
    "ServerIP (currentConfig s5) = ServerIP cfg"
    "localRecords s5 = snd (buildLocalHandlerUpdate E (CustomZones c))"
    using f2 by (simp_all add: s5_def s4_def)
  have o7: "onlyEvents s5 s7"
    unfolding s7_def by (rule onlyEvents_trans [OF onlyEvents_applyHostConfig onlyEvents_emit])
  have o8: "onlyEvents s5 s8"
    unfolding s8_def using o7 onlyEvents_trans [OF o7 onlyEvents_emit] by simp
  show ?thesis
    using f5 onlyEvents_fields [OF o8]
    by (simp add: eq updateNSGroupStates_def cfg_def)
qed

lemma appliedServer_result:
  "UpdateDNSServer exampleEnv 10 splitConfig (newDefaultServer False) = (None, appliedServer)"
  unfolding appliedServer_def by code_simp









subsection \<open>The claims about \<^verbatim>\<open>UpdateDNSServer\<close>\<close>

text \<open>
  C1. An update whose serial is below the last applied one returns an error and leaves
  the whole server as it was (so the handler map, \<^verbatim>\<open>currentConfig\<close>, the serial and the
  previous hash are unchanged); and whenever \<^verbatim>\<open>UpdateDNSServer(s, c)\<close> returns nil, the
  stored serial is \<open>s\<close>.
\<close>

theorem UpdateDNSServer_stale_rejected:
  "(serial < updateSerial s \<longrightarrow> (\<exists>err. UpdateDNSServer E serial c s = (Some err, s)))
   \<and> (\<forall>s'. UpdateDNSServer E serial c s = (None, s') \<longrightarrow> updateSerial s' = serial)"
  by (auto simp: UpdateDNSServer_def Let_def split: if_splits prod.splits option.splits)

theorem UpdateDNSServer_stale_rejected_witness:
  "(5 :: 64 word) < updateSerial appliedServer
   \<and> (\<exists>err. UpdateDNSServer exampleEnv 5 primaryOnlyConfig appliedServer = (Some err, appliedServer))
   \<and> UpdateDNSServer exampleEnv 10 splitConfig (newDefaultServer False) = (None, appliedServer)
   \<and> updateSerial appliedServer = 10"
proof -
  have stale: "(5 :: 64 word) < updateSerial appliedServer"
    by code_simp
  have rejected: "\<exists>err. UpdateDNSServer exampleEnv 5 primaryOnlyConfig appliedServer = (Some err, appliedServer)"
    using UpdateDNSServer_stale_rejected [of 5 appliedServer exampleEnv primaryOnlyConfig] stale
    by blast
  have stored: "updateSerial appliedServer = 10"
    using UpdateDNSServer_stale_rejected [of 10 "newDefaultServer False" exampleEnv splitConfig]
      appliedServer_result
    by blast
  show ?thesis
    using stale rejected stored appliedServer_result by blast
qed

text \<open>
  C3, as the code has it. The serial is compared before the hash: when the context is
  live and the serial is not below the stored one, an update whose hash equals the
  stored hash returns nil and changes the stored serial and nothing else (no event is
  logged, so nothing is applied to the host and no handler is registered or removed).
\<close>

theorem UpdateDNSServer_same_hash:
  "\<not> ctxErr s \<Longrightarrow> updateSerial s \<le> serial \<Longrightarrow> hashConfig E c = previousConfigHash s \<Longrightarrow>
   UpdateDNSServer E serial c s = (None, s\<lparr>updateSerial := serial\<rparr>)"
  by (auto simp: UpdateDNSServer_def Let_def)

theorem UpdateDNSServer_same_hash_witness:
  "\<not> ctxErr appliedServer \<and> updateSerial appliedServer \<le> 11
   \<and> hashConfig exampleEnv splitConfig = previousConfigHash appliedServer
   \<and> UpdateDNSServer exampleEnv 11 splitConfig appliedServer = (None, appliedServer\<lparr>updateSerial := 11\<rparr>)"
proof -
  have live: "\<not> ctxErr appliedServer"
    by code_simp
  have serial: "updateSerial appliedServer \<le> 11"
    by code_simp
  have hash: "hashConfig exampleEnv splitConfig = previousConfigHash appliedServer"
    by code_simp
  show ?thesis
    using UpdateDNSServer_same_hash [OF live serial hash] live serial hash by blast
qed

text \<open>The claim as written fails for a stale serial: with the stored serial 10 and the
  stored hash that of the configuration, serial 5 is rejected and the serial stays 10.\<close>

theorem UpdateDNSServer_same_hash_stale_counterexample:
  "hashConfig exampleEnv splitConfig = previousConfigHash appliedServer
   \<and> fst (UpdateDNSServer exampleEnv 5 splitConfig appliedServer) = Some (ErrStaleSerial 5)
   \<and> updateSerial (snd (UpdateDNSServer exampleEnv 5 splitConfig appliedServer)) = 10"
  by code_simp

text \<open>
  C4, as the code has it. The first loop of \<^verbatim>\<open>buildUpstreamHandlerUpdate\<close> skips a
  group with no name server before it looks at the domains. For a configuration that
  holds a malformed group with at least one name server, and whose hash is not the
  stored one, \<^verbatim>\<open>UpdateDNSServer\<close> returns an error and the handler map,
  \<^verbatim>\<open>currentConfig\<close>, the local records, the serial and the previous hash are unchanged.
\<close>

theorem UpdateDNSServer_malformed_rejected:
  assumes "\<exists>nsGroup \<in> set (NameServerGroups c). NameServers nsGroup \<noteq> [] \<and> malformedGroup nsGroup"
    and "hashConfig E c \<noteq> previousConfigHash s"
  shows "\<exists>err s'. UpdateDNSServer E serial c s = (Some err, s')
     \<and> dnsMuxMap s' = dnsMuxMap s \<and> currentConfig s' = currentConfig s
     \<and> localRecords s' = localRecords s \<and> updateSerial s' = updateSerial s
     \<and> previousConfigHash s' = previousConfigHash s"
proof -
  obtain err where err: "checkNameServerGroups (NameServerGroups c) = Some err"
    using checkNameServerGroups_malformed [OF assms(1)] by blast
  obtain s1 where s1: "applyConfiguration E c s = (Some (ErrWrap ''upstream handler updater'' err), s1)"
    "dnsMuxMap s1 = dnsMuxMap s" "localRecords s1 = localRecords s"
    "updateSerial s1 = updateSerial s" "previousConfigHash s1 = previousConfigHash s"
    "currentConfig s1 = currentConfig s"
    using applyConfiguration_rejected [OF err] by blast
  show ?thesis
    using assms(2) s1 by (auto simp: UpdateDNSServer_def Let_def)
qed

theorem UpdateDNSServer_malformed_rejected_witness:
  "noDomainGroup \<in> set (NameServerGroups noDomainConfig)
   \<and> NameServers noDomainGroup \<noteq> [] \<and> malformedGroup noDomainGroup
   \<and> hashConfig exampleEnv noDomainConfig \<noteq> previousConfigHash appliedServer
   \<and> (\<exists>err s'. UpdateDNSServer exampleEnv 11 noDomainConfig appliedServer = (Some err, s')
        \<and> dnsMuxMap s' = dnsMuxMap appliedServer \<and> currentConfig s' = currentConfig appliedServer
        \<and> localRecords s' = localRecords appliedServer \<and> updateSerial s' = updateSerial appliedServer
        \<and> previousConfigHash s' = previousConfigHash appliedServer)"
proof -
  have member: "noDomainGroup \<in> set (NameServerGroups noDomainConfig)"
    by (simp add: noDomainConfig_def)
  have bad: "NameServers noDomainGroup \<noteq> [] \<and> malformedGroup noDomainGroup"
    by (simp add: noDomainGroup_def malformedGroup_def)
  have hash: "hashConfig exampleEnv noDomainConfig \<noteq> previousConfigHash appliedServer"
    by code_simp
  have "\<exists>nsGroup \<in> set (NameServerGroups noDomainConfig).
          NameServers nsGroup \<noteq> [] \<and> malformedGroup nsGroup"
    using member bad by blast
  from UpdateDNSServer_malformed_rejected [OF this hash, of 11] member bad hash
  show ?thesis by blast
qed

text \<open>The claim as written fails for a malformed group without name servers: the
  update is applied, nil is returned, and the serial and the hash are stored.\<close>

theorem UpdateDNSServer_malformed_counterexample:
  "emptyGroup \<in> set (NameServerGroups emptyGroupConfig) \<and> malformedGroup emptyGroup
   \<and> fst (UpdateDNSServer exampleEnv 1 emptyGroupConfig (newDefaultServer False)) = None
   \<and> updateSerial (snd (UpdateDNSServer exampleEnv 1 emptyGroupConfig (newDefaultServer False))) = 1
   \<and> previousConfigHash (newDefaultServer False) = 0
   \<and> previousConfigHash (snd (UpdateDNSServer exampleEnv 1 emptyGroupConfig (newDefaultServer False))) = 2"
proof -
  have "emptyGroup \<in> set (NameServerGroups emptyGroupConfig) \<and> malformedGroup emptyGroup"
    by (simp add: emptyGroupConfig_def emptyGroup_def malformedGroup_def)
  moreover have "fst (UpdateDNSServer exampleEnv 1 emptyGroupConfig (newDefaultServer False)) = None
   \<and> updateSerial (snd (UpdateDNSServer exampleEnv 1 emptyGroupConfig (newDefaultServer False))) = 1
   \<and> previousConfigHash (newDefaultServer False) = 0
   \<and> previousConfigHash (snd (UpdateDNSServer exampleEnv 1 emptyGroupConfig (newDefaultServer False))) = 2"
    by code_simp
  ultimately show ?thesis by blast
qed




subsection \<open>Search domains\<close>

text \<open>
  C6. \<^verbatim>\<open>SearchDomains()\<close> returns a domain exactly when some entry of
  \<^verbatim>\<open>currentConfig.Domains\<close> carries that domain with \<^verbatim>\<open>Disabled\<close> and
  \<^verbatim>\<open>MatchOnly\<close> both false; every other entry is left out.
\<close>

theorem SearchDomains_iff:
  "d \<in> set (SearchDomains s) \<longleftrightarrow>
     (\<exists>dConf \<in> set (Domains (currentConfig s)).
        dcDomain dConf = d \<and> Disabled dConf = False \<and> MatchOnly dConf = False)"
  by (auto simp: SearchDomains_def)

theorem SearchDomains_iff_witness:
  "''corp.local.'' \<in> set (SearchDomains appliedServer)
   \<and> \<lparr>Disabled = False, dcDomain = ''corp.local.'', MatchOnly = False\<rparr>
        \<in> set (Domains (currentConfig appliedServer))
   \<and> ''other.'' \<notin> set (SearchDomains appliedServer)"
proof -
  have entry: "\<lparr>Disabled = False, dcDomain = ''corp.local.'', MatchOnly = False\<rparr>
        \<in> set (Domains (currentConfig appliedServer))"
    by code_simp
  have only: "Domains (currentConfig appliedServer)
        = [\<lparr>Disabled = False, dcDomain = ''corp.local.'', MatchOnly = False\<rparr>]"
    by code_simp
  have "''corp.local.'' \<in> set (SearchDomains appliedServer)"
    using SearchDomains_iff [of "''corp.local.''" appliedServer] entry by force
  moreover have "''other.'' \<notin> set (SearchDomains appliedServer)"
    using SearchDomains_iff [of "''other.''" appliedServer] only by simp
  ultimately show ?thesis using entry by blast
qed

subsection \<open>Stopping the server\<close>

text \<open>
  C8, as the code has it. \<^verbatim>\<open>Stop()\<close> cancels the context, stops the listener service
  and clears the extra-domain reference counts. When a real host manager is installed it
  also deregisters the fallback handler of the root zone (if the manager knows original
  name servers), restores the host DNS through the host manager, deletes the shutdown
  checkpoint exactly when the restore succeeds, and goes back to the no-op manager; when
  that restore succeeds the host DNS is left in its captured original state. With the
  no-op manager \<^verbatim>\<open>disableDNS\<close> returns before any restore. \<^verbatim>\<open>Stop()\<close> calls \<^verbatim>\<open>Stop\<close> on no
  handler, removes no handler from the chain but that fallback handler, and leaves the
  handler map as it was.
\<close>

theorem Stop_effect:
  "ctxErr (Stop E s) \<and> extraDomains (Stop E s) = []
   \<and> hostManager (Stop E s) = noopHostConfigurator
   \<and> dnsMuxMap (Stop E s) = dnsMuxMap s \<and> currentConfig (Stop E s) = currentConfig s
   \<and> events (Stop E s) =
       events s @ [CtxCancel]
       @ (if hostManager s = noopHostConfigurator then []
          else (case getOriginalNameservers E (hostManager s) of
                  None \<Rightarrow> []
                | Some srvs \<Rightarrow> if srvs = [] then [] else [RemoveHandler RootZone (PriorityFallback E)])
               @ [RestoreHostDNS]
               @ (if restoreHostDNSFails (hostManager s) then [] else [DeleteState]))
       @ [ServiceStop]
   \<and> (hostManager s \<noteq> noopHostConfigurator \<and> \<not> restoreHostDNSFails (hostManager s) \<longrightarrow>
        hostDNSAfter (hostManager s) (drop (length (events s)) (events (Stop E s))) h
          = CapturedOriginal)
   \<and> (\<forall>x. HandlerStop x \<notin> set (drop (length (events s)) (events (Stop E s))))
   \<and> (\<forall>z p. RemoveHandler z p \<in> set (drop (length (events s)) (events (Stop E s)))
          \<longrightarrow> z = RootZone \<and> p = PriorityFallback E \<and> hostManager s \<noteq> noopHostConfigurator)"
proof -
  have ev: "events (Stop E s) =
       events s @ [CtxCancel]
       @ (if hostManager s = noopHostConfigurator then []
          else (case getOriginalNameservers E (hostManager s) of
                  None \<Rightarrow> []
                | Some srvs \<Rightarrow> if srvs = [] then [] else [RemoveHandler RootZone (PriorityFallback E)])
               @ [RestoreHostDNS]
               @ (if restoreHostDNSFails (hostManager s) then [] else [DeleteState]))
       @ [ServiceStop]"
    by (simp add: Stop_def disableDNS_def isUsingNoopHostManager_def emit_def deregisterHandler_def
        RootZone_def Let_def split: option.splits)
  have rest: "ctxErr (Stop E s) \<and> extraDomains (Stop E s) = []
   \<and> hostManager (Stop E s) = noopHostConfigurator
   \<and> dnsMuxMap (Stop E s) = dnsMuxMap s \<and> currentConfig (Stop E s) = currentConfig s"
    by (simp add: Stop_def disableDNS_def isUsingNoopHostManager_def emit_def deregisterHandler_def
        RootZone_def Let_def split: option.splits)
  have host: "hostDNSAfter (hostManager s) (drop (length (events s)) (events (Stop E s))) h
          = CapturedOriginal"
    if real: "hostManager s \<noteq> noopHostConfigurator" and ok: "\<not> restoreHostDNSFails (hostManager s)"
  proof -
    obtain port ons where hm: "hostManager s = configurator port ons False"
      using real ok by (cases "hostManager s") auto
    show ?thesis
      unfolding ev by (simp add: hm hostDNSAfter_def split: option.splits)
  qed
  have calls: "HandlerStop x \<notin> set (drop (length (events s)) (events (Stop E s)))"
    "RemoveHandler z p \<in> set (drop (length (events s)) (events (Stop E s)))
          \<longrightarrow> z = RootZone \<and> p = PriorityFallback E \<and> hostManager s \<noteq> noopHostConfigurator"
    for x z p
  proof -
    show "HandlerStop x \<notin> set (drop (length (events s)) (events (Stop E s)))"
      unfolding ev by (simp split: option.splits)
    show "RemoveHandler z p \<in> set (drop (length (events s)) (events (Stop E s)))
          \<longrightarrow> z = RootZone \<and> p = PriorityFallback E \<and> hostManager s \<noteq> noopHostConfigurator"
      unfolding ev by (auto split: option.splits if_splits)
  qed
  have host': "hostManager s \<noteq> noopHostConfigurator \<and> \<not> restoreHostDNSFails (hostManager s) \<longrightarrow>
        hostDNSAfter (hostManager s) (drop (length (events s)) (events (Stop E s))) h
          = CapturedOriginal"
    using host by blast
  have none: "\<forall>x. HandlerStop x \<notin> set (drop (length (events s)) (events (Stop E s)))"
    using calls(1) by blast
  have only: "\<forall>z p. RemoveHandler z p \<in> set (drop (length (events s)) (events (Stop E s)))
          \<longrightarrow> z = RootZone \<and> p = PriorityFallback E \<and> hostManager s \<noteq> noopHostConfigurator"
    using calls(2) by blast
  show ?thesis
    using rest ev host' none only by (intro conjI) (elim conjE, assumption)+
qed

theorem Stop_effect_witness:
  "hostManager appliedServer = configurator True (Some [''192.168.1.1'']) False
   \<and> ctxErr (Stop exampleEnv appliedServer) \<and> extraDomains (Stop exampleEnv appliedServer) = []
   \<and> hostManager (Stop exampleEnv appliedServer) = noopHostConfigurator
   \<and> events (Stop exampleEnv appliedServer) =
       events appliedServer
       @ [CtxCancel, RemoveHandler ''.'' (- 100), RestoreHostDNS, DeleteState, ServiceStop]
   \<and> hostDNSAfter (hostManager appliedServer)
        (drop (length (events appliedServer)) (events (Stop exampleEnv appliedServer)))
        (VirtualResolver (currentConfig appliedServer))
       = CapturedOriginal
   \<and> HandlerStop primaryHandler
        \<notin> set (drop (length (events appliedServer)) (events (Stop exampleEnv appliedServer)))
   \<and> dnsMuxMap (Stop exampleEnv appliedServer) = dnsMuxMap appliedServer"
proof -
  have hm: "hostManager appliedServer = configurator True (Some [''192.168.1.1'']) False"
    by code_simp
  have fb: "PriorityFallback exampleEnv = - 100"
    by (simp add: exampleEnv_def)
  note inst = Stop_effect [of exampleEnv appliedServer "VirtualResolver (currentConfig appliedServer)"]
  note c1 = inst [THEN conjunct1]
  note c2 = inst [THEN conjunct2, THEN conjunct1]
  note c3 = inst [THEN conjunct2, THEN conjunct2, THEN conjunct1]
  note c4 = inst [THEN conjunct2, THEN conjunct2, THEN conjunct2, THEN conjunct1]
  note c6 = inst [THEN conjunct2, THEN conjunct2, THEN conjunct2, THEN conjunct2, THEN conjunct2,
      THEN conjunct1]
  note c7 = inst [THEN conjunct2, THEN conjunct2, THEN conjunct2, THEN conjunct2, THEN conjunct2,
      THEN conjunct2, THEN conjunct1]
  note c8 = inst [THEN conjunct2, THEN conjunct2, THEN conjunct2, THEN conjunct2, THEN conjunct2,
      THEN conjunct2, THEN conjunct2, THEN conjunct1]
  have "hostManager appliedServer \<noteq> noopHostConfigurator
      \<and> \<not> restoreHostDNSFails (hostManager appliedServer)"
    by (simp add: hm)
  with c7 have host: "hostDNSAfter (hostManager appliedServer)
        (drop (length (events appliedServer)) (events (Stop exampleEnv appliedServer)))
        (VirtualResolver (currentConfig appliedServer))
       = CapturedOriginal"
    by (rule mp)
  have ev: "events (Stop exampleEnv appliedServer) =
       events appliedServer
       @ [CtxCancel, RemoveHandler ''.'' (- 100), RestoreHostDNS, DeleteState, ServiceStop]"
    using c6 by (simp add: hm fb RootZone_def)
  have none: "HandlerStop primaryHandler
        \<notin> set (drop (length (events appliedServer)) (events (Stop exampleEnv appliedServer)))"
    using c8 by (rule spec)
  show ?thesis
    using hm c1 c2 c3 ev host none c4 by (intro conjI)
qed

text \<open>The claim as written fails on a server that runs with the no-op host manager
  and has four handlers in the chain: the local resolver for a custom zone, two upstream
  resolvers, and a handler registered from outside for a routed domain. \<^verbatim>\<open>Stop()\<close>
  makes two calls, the cancellation of the context and the stop of the listener service.
  No handler is stopped or removed from the chain, among them the local resolver and the
  handler from outside, which were not created with the context of the server; the three
  handlers of the update stay in the handler map; the host manager is not asked to
  restore the host DNS and no checkpoint is deleted.\<close>

theorem Stop_noop_counterexample:
  "hostManager sysDisabledServer = noopHostConfigurator
   \<and> map (handler \<circ> snd) (dnsMuxMap sysDisabledServer) = [LocalResolver, corpHandler, primaryHandler]
   \<and> AddHandler ''netbird.cloud.'' LocalResolver 100 \<in> set (events sysDisabledServer)
   \<and> AddHandler ''corp.local.'' corpHandler 50 \<in> set (events sysDisabledServer)
   \<and> AddHandler ''.'' primaryHandler 1 \<in> set (events sysDisabledServer)
   \<and> AddHandler ''example.com'' (ExternalHandler ''dnsroute'') 75 \<in> set (events sysDisabledServer)
   \<and> list_all (\<lambda>e. case e of RemoveHandler z p \<Rightarrow> False | HandlerStop h \<Rightarrow> False | _ \<Rightarrow> True)
        (events sysDisabledServer)
   \<and> dnsMuxMap (Stop exampleEnv sysDisabledServer) = dnsMuxMap sysDisabledServer
   \<and> drop (length (events sysDisabledServer)) (events (Stop exampleEnv sysDisabledServer))
        = [CtxCancel, ServiceStop]"
  by code_simp

subsection \<open>Operations on a cancelled context\<close>

text \<open>
  C9, as the code has it. On a cancelled context \<^verbatim>\<open>UpdateDNSServer\<close> returns the
  context error and leaves the server as it was, and \<^verbatim>\<open>applyHostConfig\<close> does nothing,
  so no host configuration is applied. \<^verbatim>\<open>RegisterHandler\<close> and \<^verbatim>\<open>DeregisterHandler\<close>
  return nothing and do not look at the context: they still call the handler chain and
  still change the reference counts; only their host-configuration step is skipped.
\<close>

theorem cancelled_context_effects:
  assumes "ctxErr s"
  shows "UpdateDNSServer E serial c s = (Some ErrContext, s)
    \<and> applyHostConfig E s = s
    \<and> RegisterHandler E domains h p s =
        s\<lparr>extraDomains := foldl (\<lambda>m d. incRef (toZone E d) m) (extraDomains s) domains,
          events := events s
            @ map (\<lambda>d. AddHandler d h p) (filter (\<lambda>d. d \<noteq> []) (map (PunycodeString E) domains))\<rparr>
    \<and> DeregisterHandler E domains p s =
        s\<lparr>extraDomains := foldl (\<lambda>m d. decRef (toZone E d) m) (extraDomains s) domains,
          events := events s
            @ map (\<lambda>d. RemoveHandler d p) (filter (\<lambda>d. d \<noteq> []) (map (PunycodeString E) domains))\<rparr>"
  using assms
  by (simp add: UpdateDNSServer_def applyHostConfig_def RegisterHandler_def DeregisterHandler_def
      registerHandler_def deregisterHandler_def Let_def)

theorem cancelled_context_effects_witness:
  "ctxErr stoppedServer
   \<and> UpdateDNSServer exampleEnv 11 primaryOnlyConfig stoppedServer = (Some ErrContext, stoppedServer)
   \<and> applyHostConfig exampleEnv stoppedServer = stoppedServer"
proof -
  have cancelled: "ctxErr stoppedServer"
    by code_simp
  show ?thesis
    using cancelled_context_effects [OF cancelled, of exampleEnv 11 primaryOnlyConfig] cancelled
    by blast
qed

text \<open>The claim as written fails for \<^verbatim>\<open>RegisterHandler\<close>: on the stopped server it
  adds a handler to the chain and a reference count for the zone.\<close>

theorem cancelled_RegisterHandler_counterexample:
  "ctxErr stoppedServer \<and> extraDomains stoppedServer = []
   \<and> extraDomains (RegisterHandler exampleEnv [''example.com''] (ExternalHandler ''dnsroute'') 75 stoppedServer)
        = [(''example.com.'', 1)]
   \<and> drop (length (events stoppedServer))
        (events (RegisterHandler exampleEnv [''example.com''] (ExternalHandler ''dnsroute'') 75 stoppedServer))
        = [AddHandler ''example.com'' (ExternalHandler ''dnsroute'') 75]"
  by code_simp

subsection \<open>Priorities of the upstream handlers\<close>

lemma go_int_id: "- (2 ^ 63) \<le> x \<Longrightarrow> x < 2 ^ 63 \<Longrightarrow> go_int x = x"
  by (simp add: go_int_def)

lemma leaksPriority_iff:
  "tiersOrdered E \<Longrightarrow> base = PriorityUpstream E \<or> base = PriorityDefault E \<Longrightarrow>
   leaksPriority E base p \<longleftrightarrow> p \<le> lowerTier E base"
  by (auto simp: leaksPriority_def lowerTier_def tiersOrdered_def)

lemma enumerate_ge: "kg \<in> set (enumerate i gs) \<Longrightarrow> i \<le> fst kg"
  by (auto simp: in_set_enumerate_eq)

text \<open>The loop from index \<open>i\<close>, when it returns handlers: one for each group at an
  index below the gap that has a UDP server, with priority base minus index.\<close>

lemma createHandlersFrom_char:
  assumes "tiersOrdered E" and "base = PriorityUpstream E \<or> base = PriorityDefault E"
  shows "int i \<le> base - lowerTier E base \<Longrightarrow> createHandlersFrom E zone base i gs = Inr ws \<Longrightarrow>
     ws = map (groupHandler E zone base)
            (filter (\<lambda>kg. int (fst kg) < base - lowerTier E base \<and> udpServers E (snd kg) \<noteq> [])
               (enumerate i gs))"
proof (induction gs arbitrary: i ws)
  case Nil
  then show ?case by simp
next
  case (Cons g gs)
  have range: "- (2 ^ 63) \<le> base - int i" "base - int i < 2 ^ 63"
    using assms Cons.prems(1) by (auto simp: tiersOrdered_def lowerTier_def split: if_splits)
  have prio: "go_int (base - int i) = base - int i"
    by (rule go_int_id [OF range])
  show ?case
  proof (cases "int i < base - lowerTier E base")
    case False
    then have "leaksPriority E base (base - int i)"
      using leaksPriority_iff [OF assms] by simp
    then have "ws = []" using Cons.prems(2) by (simp add: prio Let_def)
    moreover have "filter (\<lambda>kg. int (fst kg) < base - lowerTier E base \<and> udpServers E (snd kg) \<noteq> [])
               (enumerate i (g # gs)) = []"
      using False by (auto simp: filter_empty_conv dest!: enumerate_ge)
    ultimately show ?thesis by simp
  next
    case True
    then have noleak: "\<not> leaksPriority E base (base - int i)"
      using leaksPriority_iff [OF assms] by simp
    have next_ok: "int (Suc i) \<le> base - lowerTier E base" using True by simp
    show ?thesis
    proof (cases "udpServers E g = []")
      case True
      then have "createHandlersFrom E zone base (Suc i) gs = Inr ws"
        using Cons.prems(2) noleak by (simp add: prio Let_def split: if_splits)
      from Cons.IH [OF next_ok this] True show ?thesis by simp
    next
      case False
      then obtain ws' where rest: "createHandlersFrom E zone base (Suc i) gs = Inr ws'"
        and ws: "ws = groupHandler E zone base (i, g) # ws'"
        using Cons.prems(2) noleak
        by (auto simp: prio Let_def groupHandler_def split: if_splits sum.splits)
      from Cons.IH [OF next_ok rest] ws False \<open>int i < base - lowerTier E base\<close>
      show ?thesis by simp
    qed
  qed
qed

lemma basePriorityOf_cases:
  "basePriorityOf E z = PriorityUpstream E \<or> basePriorityOf E z = PriorityDefault E"
  by (simp add: basePriorityOf_def)

lemma createHandlersForDomainGroup_char:
  assumes "tiersOrdered E"
    and "createHandlersForDomainGroup E dg (basePriorityOf E (gdomain dg)) = Inr us"
  shows "us = map (groupHandler E (gdomain dg) (basePriorityOf E (gdomain dg)))
               (servedGroups E (basePriorityOf E (gdomain dg)) (groups dg))"
proof -
  have "int 0 \<le> basePriorityOf E (gdomain dg) - lowerTier E (basePriorityOf E (gdomain dg))"
    using assms(1) by (auto simp: basePriorityOf_def lowerTier_def tiersOrdered_def)
  from createHandlersFrom_char [OF assms(1) basePriorityOf_cases this]
    assms(2)
  show ?thesis
    unfolding createHandlersForDomainGroup_def servedGroups_def by blast
qed

lemma handlersOfGroups_zone:
  assumes "tiersOrdered E"
  shows "handlersOfGroups E dgs = Inr ws \<Longrightarrow> distinct (map gdomain dgs) \<Longrightarrow> dg \<in> set dgs \<Longrightarrow>
     filter (\<lambda>w. domain w = gdomain dg) ws
       = map (groupHandler E (gdomain dg) (basePriorityOf E (gdomain dg)))
           (servedGroups E (basePriorityOf E (gdomain dg)) (groups dg))"
proof (induction dgs arbitrary: ws)
  case Nil
  then show ?case by simp
next
  case (Cons x dgs)
  from Cons.prems(1) obtain us rest where
    us: "createHandlersForDomainGroup E x (basePriorityOf E (gdomain x)) = Inr us"
    and rest: "handlersOfGroups E dgs = Inr rest" and ws: "ws = us @ rest"
    by (auto split: sum.splits)
  have us_eq: "us = map (groupHandler E (gdomain x) (basePriorityOf E (gdomain x)))
               (servedGroups E (basePriorityOf E (gdomain x)) (groups x))"
    by (rule createHandlersForDomainGroup_char [OF assms us])
  have us_dom: "\<forall>w \<in> set us. domain w = gdomain x"
    by (auto simp: us_eq groupHandler_def)
  show ?case
  proof (cases "dg = x")
    case True
    have "\<forall>d \<in> set dgs. gdomain d \<noteq> gdomain x"
      using Cons.prems(2) by (metis distinct.simps(2) imageI list.simps(9) set_map)
    have "filter (\<lambda>w. domain w = gdomain x) rest = []"
    proof (rule ccontr)
      assume "filter (\<lambda>w. domain w = gdomain x) rest \<noteq> []"
      then obtain w where w: "w \<in> set rest" "domain w = gdomain x"
        by (auto simp: filter_empty_conv)
      have "\<exists>d \<in> set dgs. gdomain d = domain w"
        using rest w(1)
      proof (induction dgs arbitrary: rest)
        case Nil
        then show ?case by simp
      next
        case (Cons y ys)
        from Cons.prems(1) obtain vs rest' where
          vs: "createHandlersForDomainGroup E y (basePriorityOf E (gdomain y)) = Inr vs"
          and rest': "handlersOfGroups E ys = Inr rest'" and r: "rest = vs @ rest'"
          by (auto split: sum.splits)
        have "\<forall>v \<in> set vs. domain v = gdomain y"
          using createHandlersForDomainGroup_char [OF assms vs] by (auto simp: groupHandler_def)
        then show ?case using Cons.IH [OF rest'] Cons.prems(2) r by auto
      qed
      then show False using \<open>\<forall>d \<in> set dgs. gdomain d \<noteq> gdomain x\<close> w(2) by auto
    qed
    moreover have "filter (\<lambda>w. domain w = gdomain x) us = us"
      using us_dom by (simp add: filter_id_conv)
    ultimately show ?thesis using True ws us_eq by simp
  next
    case False
    then have mem: "dg \<in> set dgs" using Cons.prems(3) by simp
    then have "gdomain dg \<noteq> gdomain x"
      using Cons.prems(2) by (metis distinct.simps(2) imageI list.simps(9) set_map)
    then have "filter (\<lambda>w. domain w = gdomain dg) us = []"
      using us_dom by (auto simp: filter_empty_conv)
    moreover have "distinct (map gdomain dgs)" using Cons.prems(2) by simp
    ultimately show ?thesis using Cons.IH [OF rest _ mem] ws by simp
  qed
qed

lemma handlersOfGroups_mem:
  assumes "tiersOrdered E"
  shows "handlersOfGroups E dgs = Inr ws \<Longrightarrow> w \<in> set ws \<Longrightarrow>
     \<exists>dg \<in> set dgs. gdomain dg = domain w
        \<and> w \<in> set (map (groupHandler E (gdomain dg) (basePriorityOf E (gdomain dg)))
                     (servedGroups E (basePriorityOf E (gdomain dg)) (groups dg)))"
proof (induction dgs arbitrary: ws)
  case Nil
  then show ?case by simp
next
  case (Cons x dgs)
  from Cons.prems(1) obtain us rest where
    us: "createHandlersForDomainGroup E x (basePriorityOf E (gdomain x)) = Inr us"
    and rest: "handlersOfGroups E dgs = Inr rest" and ws: "ws = us @ rest"
    by (auto split: sum.splits)
  have us_eq: "us = map (groupHandler E (gdomain x) (basePriorityOf E (gdomain x)))
               (servedGroups E (basePriorityOf E (gdomain x)) (groups x))"
    by (rule createHandlersForDomainGroup_char [OF assms us])
  show ?case
  proof (cases "w \<in> set us")
    case True
    moreover have "domain w = gdomain x" using True us_eq by (auto simp: groupHandler_def)
    ultimately show ?thesis using us_eq by auto
  next
    case False
    then have "w \<in> set rest" using Cons.prems(2) ws by simp
    from Cons.IH [OF rest this] show ?thesis by auto
  qed
qed

lemma distinct_appendGroup:
  "distinct (map fst m) \<Longrightarrow> distinct (map fst (appendGroup k g m))"
  by (simp add: appendGroup_def distinct_update)

lemma distinct_groupStep:
  "distinct (map fst m) \<Longrightarrow> distinct (map fst (groupStep m g))"
proof -
  have "distinct (map fst m) \<Longrightarrow>
     distinct (map fst (foldl (\<lambda>m d. if d = [] then m else appendGroup d g m) m ds))" for ds
    by (induction ds arbitrary: m) (auto simp: distinct_appendGroup)
  then show "distinct (map fst m) \<Longrightarrow> distinct (map fst (groupStep m g))"
    by (simp add: groupStep_def distinct_appendGroup)
qed

lemma distinct_zoneMap: "distinct (map fst m) \<Longrightarrow> distinct (map fst (foldl groupStep m gs))"
  by (induction gs arbitrary: m) (auto simp: distinct_groupStep)

lemma servedGroups_bounds:
  assumes "kg \<in> set (servedGroups E base gs)"
  shows "fst kg < length gs \<and> snd kg = gs ! fst kg \<and> udpServers E (snd kg) \<noteq> []
     \<and> int (fst kg) < base - lowerTier E base"
  using assms by (auto simp: servedGroups_def in_set_enumerate_eq)

lemma filter_enumerate_take:
  "filter (\<lambda>kg. fst kg < n) (enumerate i gs) = enumerate i (take (n - i) gs)"
proof (induction gs arbitrary: i)
  case Nil
  then show ?case by simp
next
  case (Cons g gs)
  show ?case
  proof (cases "i < n")
    case True
    then have "take (n - i) (g # gs) = g # take (n - Suc i) gs"
      by (simp add: take_Cons' )
    then show ?thesis using True Cons.IH [of "Suc i"] by simp
  next
    case False
    then show ?thesis using Cons.IH [of "Suc i"] by simp
  qed
qed

lemma servedGroups_all_udp:
  assumes "\<forall>g \<in> set gs. udpServers E g \<noteq> []"
  shows "map snd (servedGroups E base gs) = take (nat (base - lowerTier E base)) gs"
proof -
  have "servedGroups E base gs
      = filter (\<lambda>kg. fst kg < nat (base - lowerTier E base)) (enumerate 0 gs)"
    unfolding servedGroups_def
    by (rule filter_cong) (use assms in \<open>auto simp: in_set_enumerate_eq\<close>)
  then show ?thesis
    by (simp add: filter_enumerate_take)
qed

text \<open>
  C2, as the code has it. In the handlers that \<^verbatim>\<open>buildUpstreamHandlerUpdate\<close> returns,
  every handler is the one built for a group of its zone at some index \<open>k\<close> of the
  zone's group list, with priority base minus \<open>k\<close>; for a zone other than the root the
  priority lies above \<^verbatim>\<open>PriorityDefault\<close> and at most at \<^verbatim>\<open>PriorityUpstream\<close>, for the
  root zone above \<^verbatim>\<open>PriorityFallback\<close> and at most at \<^verbatim>\<open>PriorityDefault\<close>. The handlers
  of a zone are exactly those of its groups at an index below the gap to the next tier
  that have a UDP name server: a group without one is dropped and still takes its
  index. When every group of a non-root zone has a UDP name server, the groups that get
  a handler are the first K = \<^verbatim>\<open>PriorityUpstream - PriorityDefault\<close> of the zone.
\<close>

theorem upstream_priority_tiers:
  assumes "tiersOrdered E" and "buildUpstreamHandlerUpdate E nsGroups = Inr muxUpdates"
  shows "(\<forall>w \<in> set muxUpdates.
            (\<exists>gs k. (domain w, gs) \<in> set (foldl groupStep [] nsGroups) \<and> k < length gs
                \<and> udpServers E (gs ! k) \<noteq> []
                \<and> w = groupHandler E (domain w) (basePriorityOf E (domain w)) (k, gs ! k))
            \<and> (domain w \<noteq> RootZone \<longrightarrow>
                  PriorityDefault E < priority w \<and> priority w \<le> PriorityUpstream E)
            \<and> (domain w = RootZone \<longrightarrow>
                  PriorityFallback E < priority w \<and> priority w \<le> PriorityDefault E))
       \<and> (\<forall>zg \<in> set (foldl groupStep [] nsGroups).
            filter (\<lambda>w. domain w = fst zg) muxUpdates
              = map (groupHandler E (fst zg) (basePriorityOf E (fst zg)))
                  (servedGroups E (basePriorityOf E (fst zg)) (snd zg))
            \<and> (fst zg \<noteq> RootZone \<and> (\<forall>g \<in> set (snd zg). udpServers E g \<noteq> []) \<longrightarrow>
                 map snd (servedGroups E (PriorityUpstream E) (snd zg))
                   = take (nat (PriorityUpstream E - PriorityDefault E)) (snd zg)))"
proof -
  define zm where "zm = foldl groupStep [] nsGroups"
  define dgs where "dgs = groupNSGroupsByDomain nsGroups"
  have dgs_eq: "dgs = map (\<lambda>(d, gs). \<lparr>gdomain = d, groups = gs\<rparr>) zm"
    by (simp add: dgs_def zm_def groupNSGroupsByDomain_def)
  have hs: "handlersOfGroups E dgs = Inr muxUpdates"
    using assms(2) by (simp add: buildUpstreamHandlerUpdate_def dgs_def split: option.splits)
  have "map gdomain dgs = map fst zm"
    by (simp add: dgs_eq case_prod_beta)
  then have dist: "distinct (map gdomain dgs)"
    using distinct_zoneMap [of "[]" nsGroups] by (simp add: zm_def)
  have first: "(\<exists>gs k. (domain w, gs) \<in> set zm \<and> k < length gs
                \<and> udpServers E (gs ! k) \<noteq> []
                \<and> w = groupHandler E (domain w) (basePriorityOf E (domain w)) (k, gs ! k))
            \<and> (domain w \<noteq> RootZone \<longrightarrow>
                  PriorityDefault E < priority w \<and> priority w \<le> PriorityUpstream E)
            \<and> (domain w = RootZone \<longrightarrow>
                  PriorityFallback E < priority w \<and> priority w \<le> PriorityDefault E)"
    if w: "w \<in> set muxUpdates" for w
  proof -
    from handlersOfGroups_mem [OF assms(1) hs w]
    obtain dg kg where dg: "dg \<in> set dgs" "gdomain dg = domain w"
      and kg: "kg \<in> set (servedGroups E (basePriorityOf E (domain w)) (groups dg))"
      and weq: "w = groupHandler E (domain w) (basePriorityOf E (domain w)) kg"
      by auto
    have mem: "(domain w, groups dg) \<in> set zm"
      using dg by (auto simp: dgs_eq)
    note b = servedGroups_bounds [OF kg]
    have kg_eq: "kg = (fst kg, groups dg ! fst kg)"
      using b by (simp add: prod_eq_iff)
    have ex: "\<exists>gs k. (domain w, gs) \<in> set zm \<and> k < length gs
                \<and> udpServers E (gs ! k) \<noteq> []
                \<and> w = groupHandler E (domain w) (basePriorityOf E (domain w)) (k, gs ! k)"
      using mem b weq kg_eq by metis
    have prio: "priority w = basePriorityOf E (domain w) - int (fst kg)"
      by (subst weq) (simp add: groupHandler_def)
    have bounds: "lowerTier E (basePriorityOf E (domain w)) < priority w
        \<and> priority w \<le> basePriorityOf E (domain w)"
      using b prio by simp
    have "domain w \<noteq> RootZone \<Longrightarrow> PriorityDefault E < priority w \<and> priority w \<le> PriorityUpstream E"
      using bounds by (simp add: basePriorityOf_def lowerTier_def)
    moreover have "domain w = RootZone \<Longrightarrow>
        PriorityFallback E < priority w \<and> priority w \<le> PriorityDefault E"
      using bounds assms(1) by (simp add: basePriorityOf_def lowerTier_def tiersOrdered_def)
    ultimately show ?thesis using ex by blast
  qed
  have second: "filter (\<lambda>w. domain w = fst zg) muxUpdates
              = map (groupHandler E (fst zg) (basePriorityOf E (fst zg)))
                  (servedGroups E (basePriorityOf E (fst zg)) (snd zg))
            \<and> (fst zg \<noteq> RootZone \<and> (\<forall>g \<in> set (snd zg). udpServers E g \<noteq> []) \<longrightarrow>
                 map snd (servedGroups E (PriorityUpstream E) (snd zg))
                   = take (nat (PriorityUpstream E - PriorityDefault E)) (snd zg))"
    if zg: "zg \<in> set zm" for zg
  proof -
    have "\<lparr>gdomain = fst zg, groups = snd zg\<rparr> \<in> set dgs"
      using zg by (force simp: dgs_eq)
    from handlersOfGroups_zone [OF assms(1) hs dist this]
    have a: "filter (\<lambda>w. domain w = fst zg) muxUpdates
              = map (groupHandler E (fst zg) (basePriorityOf E (fst zg)))
                  (servedGroups E (basePriorityOf E (fst zg)) (snd zg))"
      by simp
    have "map snd (servedGroups E (PriorityUpstream E) (snd zg))
                   = take (nat (PriorityUpstream E - PriorityDefault E)) (snd zg)"
      if "\<forall>g \<in> set (snd zg). udpServers E g \<noteq> []"
      using servedGroups_all_udp [OF that, of "PriorityUpstream E"]
      by (simp add: lowerTier_def)
    then show ?thesis using a by blast
  qed
  show ?thesis
    using first second unfolding zm_def by blast
qed

theorem upstream_priority_tiers_witness:
  "tiersOrdered exampleEnv
   \<and> buildUpstreamHandlerUpdate exampleEnv [corpGroup, primaryGroup]
       = Inr [groupHandler exampleEnv ''corp.local.'' 50 (0, corpGroup),
              groupHandler exampleEnv ''.'' 1 (0, primaryGroup)]
   \<and> (''corp.local.'', [corpGroup]) \<in> set (foldl groupStep [] [corpGroup, primaryGroup])
   \<and> filter (\<lambda>w. domain w = ''corp.local.'')
        [groupHandler exampleEnv ''corp.local.'' 50 (0, corpGroup),
         groupHandler exampleEnv ''.'' 1 (0, primaryGroup)]
       = map (groupHandler exampleEnv ''corp.local.'' 50) (servedGroups exampleEnv 50 [corpGroup])
   \<and> map snd (servedGroups exampleEnv 50 [corpGroup]) = take 49 [corpGroup]
   \<and> domain (groupHandler exampleEnv ''corp.local.'' 50 (0, corpGroup)) \<noteq> RootZone
   \<and> PriorityDefault exampleEnv < priority (groupHandler exampleEnv ''corp.local.'' 50 (0, corpGroup))
   \<and> priority (groupHandler exampleEnv ''corp.local.'' 50 (0, corpGroup)) \<le> PriorityUpstream exampleEnv
   \<and> domain (groupHandler exampleEnv ''.'' 1 (0, primaryGroup)) = RootZone
   \<and> PriorityFallback exampleEnv < priority (groupHandler exampleEnv ''.'' 1 (0, primaryGroup))
   \<and> priority (groupHandler exampleEnv ''.'' 1 (0, primaryGroup)) \<le> PriorityDefault exampleEnv"
proof -
  have tiers: "tiersOrdered exampleEnv"
    by (simp add: tiersOrdered_def exampleEnv_def)
  have built: "buildUpstreamHandlerUpdate exampleEnv [corpGroup, primaryGroup]
       = Inr [groupHandler exampleEnv ''corp.local.'' 50 (0, corpGroup),
              groupHandler exampleEnv ''.'' 1 (0, primaryGroup)]"
    by code_simp
  have mem: "(''corp.local.'', [corpGroup]) \<in> set (foldl groupStep [] [corpGroup, primaryGroup])"
    by code_simp
  have vals: "basePriorityOf exampleEnv ''corp.local.'' = 50 \<and> ''corp.local.'' \<noteq> RootZone
     \<and> (\<forall>g \<in> set [corpGroup]. udpServers exampleEnv g \<noteq> [])
     \<and> PriorityUpstream exampleEnv = 50 \<and> PriorityDefault exampleEnv = 1"
    by code_simp
  from upstream_priority_tiers [OF tiers built] mem
  have "filter (\<lambda>w. domain w = fst (''corp.local.'', [corpGroup]))
          [groupHandler exampleEnv ''corp.local.'' 50 (0, corpGroup),
           groupHandler exampleEnv ''.'' 1 (0, primaryGroup)]
        = map (groupHandler exampleEnv (fst (''corp.local.'', [corpGroup]))
                 (basePriorityOf exampleEnv (fst (''corp.local.'', [corpGroup]))))
            (servedGroups exampleEnv (basePriorityOf exampleEnv (fst (''corp.local.'', [corpGroup])))
               (snd (''corp.local.'', [corpGroup])))
      \<and> (fst (''corp.local.'', [corpGroup]) \<noteq> RootZone
           \<and> (\<forall>g \<in> set (snd (''corp.local.'', [corpGroup])). udpServers exampleEnv g \<noteq> []) \<longrightarrow>
          map snd (servedGroups exampleEnv (PriorityUpstream exampleEnv) (snd (''corp.local.'', [corpGroup])))
            = take (nat (PriorityUpstream exampleEnv - PriorityDefault exampleEnv))
                (snd (''corp.local.'', [corpGroup])))"
    by blast
  then have zonePart: "filter (\<lambda>w. domain w = ''corp.local.'')
        [groupHandler exampleEnv ''corp.local.'' 50 (0, corpGroup),
         groupHandler exampleEnv ''.'' 1 (0, primaryGroup)]
       = map (groupHandler exampleEnv ''corp.local.'' 50) (servedGroups exampleEnv 50 [corpGroup])
     \<and> map snd (servedGroups exampleEnv 50 [corpGroup]) = take 49 [corpGroup]"
    using vals by simp
  have doms: "domain (groupHandler exampleEnv ''corp.local.'' 50 (0, corpGroup)) \<noteq> RootZone"
    "domain (groupHandler exampleEnv ''.'' 1 (0, primaryGroup)) = RootZone"
    by (simp_all add: groupHandler_def RootZone_def)
  from upstream_priority_tiers [OF tiers built] doms
  have prios: "PriorityDefault exampleEnv < priority (groupHandler exampleEnv ''corp.local.'' 50 (0, corpGroup))
     \<and> priority (groupHandler exampleEnv ''corp.local.'' 50 (0, corpGroup)) \<le> PriorityUpstream exampleEnv
     \<and> PriorityFallback exampleEnv < priority (groupHandler exampleEnv ''.'' 1 (0, primaryGroup))
     \<and> priority (groupHandler exampleEnv ''.'' 1 (0, primaryGroup)) \<le> PriorityDefault exampleEnv"
    by simp
  show ?thesis
    using tiers built mem zonePart doms prios by blast
qed

text \<open>The claim as written fails when one of the first K groups has no UDP name
  server. With K = 49 and fifty groups for one zone, the first with a TCP server only,
  the handlers are those of the groups at the indices 1 to 48: forty-eight handlers,
  none for the first group.\<close>

theorem upstream_first_K_counterexample:
  "PriorityUpstream exampleEnv - PriorityDefault exampleEnv = 49
   \<and> length overflowGroups = 50
   \<and> foldl groupStep [] overflowGroups = [(''internal.'', overflowGroups)]
   \<and> buildUpstreamHandlerUpdate exampleEnv overflowGroups
       = Inr (map (groupHandler exampleEnv ''internal.'' 50) (enumerate 1 (replicate 48 internalGroup)))
   \<and> length (map (groupHandler exampleEnv ''internal.'' 50) (enumerate 1 (replicate 48 internalGroup))) = 48"
  by code_simp

subsection \<open>The extra-domain reference counts\<close>

lemma refsInRange_iff:
  "refsInRange m \<longleftrightarrow> (\<forall>z c. map_of m z = Some c \<longrightarrow> 0 < c \<and> c < 2 ^ 63)"
proof
  assume r: "refsInRange m"
  show "\<forall>z c. map_of m z = Some c \<longrightarrow> 0 < c \<and> c < 2 ^ 63"
  proof (intro allI impI)
    fix z c assume some: "map_of m z = Some c"
    then have "z \<in> set (map fst m)"
      by (metis domI dom_map_of_conv_image_fst set_map)
    then have "0 < refcount m z \<and> refcount m z < 2 ^ 63"
      using r unfolding refsInRange_def by blast
    then show "0 < c \<and> c < 2 ^ 63"
      using some by (simp add: refcount_def)
  qed
next
  assume a: "\<forall>z c. map_of m z = Some c \<longrightarrow> 0 < c \<and> c < 2 ^ 63"
  show "refsInRange m"
    unfolding refsInRange_def
  proof
    fix z assume "z \<in> set (map fst m)"
    then obtain c where "map_of m z = Some c"
      by (metis domD dom_map_of_conv_image_fst set_map)
    then show "0 < refcount m z \<and> refcount m z < 2 ^ 63"
      using a by (simp add: refcount_def)
  qed
qed

lemma refcount_nonneg: "refsInRange m \<Longrightarrow> 0 \<le> refcount m z \<and> refcount m z < 2 ^ 63"
proof (cases "map_of m z")
  case None
  then show ?thesis by (simp add: refcount_def)
next
  case (Some c)
  assume "refsInRange m"
  then have "0 < c \<and> c < 2 ^ 63" using Some unfolding refsInRange_iff by blast
  then show ?thesis using Some by (simp add: refcount_def)
qed

lemma refcount_zero_iff: "refsInRange m \<Longrightarrow> refcount m z = 0 \<longleftrightarrow> map_of m z = None"
  by (auto simp: refsInRange_iff refcount_def split: option.splits)

lemma map_of_by_refcount:
  assumes "refsInRange m" and "refsInRange m'" and "\<forall>z. refcount m' z = refcount m z"
  shows "map_of m' = map_of m"
proof
  fix z
  show "map_of m' z = map_of m z"
  proof (cases "refcount m z = 0")
    case True
    then show ?thesis
      using assms refcount_zero_iff [of m z] refcount_zero_iff [of m' z] by simp
  next
    case False
    then have "map_of m z = Some (refcount m z)" "map_of m' z = Some (refcount m' z)"
      using assms refcount_zero_iff [of m z] refcount_zero_iff [of m' z]
      by (auto simp: refcount_def split: option.splits)
    then show ?thesis using assms(3) by simp
  qed
qed

lemma incRef_refcount:
  assumes "refsInRange m" and "refcount m z + 1 < 2 ^ 63"
  shows "refsInRange (incRef z m) \<and> refcount (incRef z m) = (refcount m)(z := refcount m z + 1)"
proof -
  have c: "0 \<le> refcount m z" using refcount_nonneg [OF assms(1)] by simp
  have g: "go_int (refcount m z + 1) = refcount m z + 1"
    using c assms(2) by (intro go_int_id) auto
  have mo: "map_of (incRef z m) = (map_of m)(z \<mapsto> refcount m z + 1)"
    by (simp add: incRef_def g update_conv')
  have "refsInRange (incRef z m)"
    using assms c unfolding refsInRange_iff mo by auto
  moreover have "refcount (incRef z m) = (refcount m)(z := refcount m z + 1)"
    by (rule ext) (simp add: refcount_def mo)
  ultimately show ?thesis by simp
qed

lemma decRef_refcount:
  assumes "refsInRange m"
  shows "refsInRange (decRef z m) \<and> refcount (decRef z m) = (refcount m)(z := max 0 (refcount m z - 1))"
proof -
  have c: "0 \<le> refcount m z" "refcount m z < 2 ^ 63" using refcount_nonneg [OF assms] by simp_all
  have g: "go_int (refcount m z - 1) = refcount m z - 1"
    using c by (intro go_int_id) auto
  define m' where "m' = AList.update z (refcount m z - 1) m"
  have r': "refcount m' z = refcount m z - 1"
    by (simp add: m'_def refcount_def update_conv')
  show ?thesis
  proof (cases "refcount m z - 1 \<le> 0")
    case True
    then have d: "decRef z m = AList.delete z m'"
      by (simp add: decRef_def g Let_def m'_def [symmetric] r')
    have mo: "map_of (decRef z m) = (map_of m)(z := None)"
      by (simp add: d delete_conv' m'_def update_conv')
    have "refsInRange (decRef z m)"
      using assms unfolding refsInRange_iff mo by auto
    moreover have "refcount (decRef z m) = (refcount m)(z := max 0 (refcount m z - 1))"
      using True by (intro ext) (simp add: refcount_def mo)
    ultimately show ?thesis by simp
  next
    case False
    then have d: "decRef z m = m'"
      by (simp add: decRef_def g Let_def m'_def [symmetric] r')
    have mo: "map_of (decRef z m) = (map_of m)(z \<mapsto> refcount m z - 1)"
      by (simp add: d m'_def update_conv')
    have "refsInRange (decRef z m)"
      using assms False c unfolding refsInRange_iff mo by auto
    moreover have "refcount (decRef z m) = (refcount m)(z := max 0 (refcount m z - 1))"
      using False by (intro ext) (simp add: refcount_def mo)
    ultimately show ?thesis by simp
  qed
qed

text \<open>The loop of \<^verbatim>\<open>RegisterHandler\<close> adds to each zone the number of times it occurs
  among the zones of the domains; the loop of \<^verbatim>\<open>DeregisterHandler\<close> subtracts it and
  stops at zero.\<close>

lemma incRef_loop:
  "refsInRange m \<Longrightarrow> \<forall>z. refcount m z + int (count_list (map f ds) z) < 2 ^ 63 \<Longrightarrow>
   refsInRange (foldl (\<lambda>m d. incRef (f d) m) m ds)
   \<and> (\<forall>z. refcount (foldl (\<lambda>m d. incRef (f d) m) m ds) z
          = refcount m z + int (count_list (map f ds) z))"
proof (induction ds arbitrary: m)
  case Nil
  then show ?case by simp
next
  case (Cons d ds)
  have "refcount m (f d) + int (count_list (map f (d # ds)) (f d)) < 2 ^ 63"
    using Cons.prems(2) by blast
  then have small: "refcount m (f d) + 1 < 2 ^ 63" by simp
  note step = incRef_refcount [OF Cons.prems(1) small]
  have bound: "\<forall>z. refcount (incRef (f d) m) z + int (count_list (map f ds) z) < 2 ^ 63"
  proof
    fix z
    show "refcount (incRef (f d) m) z + int (count_list (map f ds) z) < 2 ^ 63"
      using Cons.prems(2) [rule_format, of z] step by (cases "z = f d") auto
  qed
  from Cons.IH [OF conjunct1 [OF step] bound] step
  show ?case by auto
qed

lemma decRef_loop:
  "refsInRange m \<Longrightarrow>
   refsInRange (foldl (\<lambda>m d. decRef (f d) m) m ds)
   \<and> (\<forall>z. refcount (foldl (\<lambda>m d. decRef (f d) m) m ds) z
          = max 0 (refcount m z - int (count_list (map f ds) z)))"
proof (induction ds arbitrary: m)
  case Nil
  then show ?case using refcount_nonneg [OF Nil] by simp
next
  case (Cons d ds)
  note step = decRef_refcount [OF Cons.prems, of "f d"]
  from Cons.IH [OF conjunct1 [OF step]] step
  show ?case by auto
qed

lemma RegisterHandler_extraDomains:
  "extraDomains (RegisterHandler E domains h p s)
     = foldl (\<lambda>m d. incRef (toZone E d) m) (extraDomains s) domains"
  by (simp add: RegisterHandler_def Let_def onlyEvents_fields [OF onlyEvents_applyHostConfig]
      onlyEvents_fields [OF onlyEvents_registerHandler])

lemma DeregisterHandler_extraDomains:
  "extraDomains (DeregisterHandler E domains p s)
     = foldl (\<lambda>m d. decRef (toZone E d) m) (extraDomains s) domains"
  by (simp add: DeregisterHandler_def Let_def onlyEvents_fields [OF onlyEvents_applyHostConfig]
      onlyEvents_fields [OF onlyEvents_deregisterHandler])

lemma RegisterHandler_repeat:
  assumes "refsInRange (extraDomains s)"
  shows "\<forall>z. refcount (extraDomains s) z
           + int n * int (count_list (map (toZone E) domains) z) < 2 ^ 63 \<Longrightarrow>
    refsInRange (extraDomains (((RegisterHandler E domains h p) ^^ n) s))
    \<and> (\<forall>z. refcount (extraDomains (((RegisterHandler E domains h p) ^^ n) s)) z
          = refcount (extraDomains s) z + int n * int (count_list (map (toZone E) domains) z))"
proof (induction n)
  case 0
  then show ?case using assms by simp
next
  case (Suc n)
  define t where "t = ((RegisterHandler E domains h p) ^^ n) s"
  have smaller: "\<forall>z. refcount (extraDomains s) z
           + int n * int (count_list (map (toZone E) domains) z) < 2 ^ 63"
  proof
    fix z
    have "int n * int (count_list (map (toZone E) domains) z)
        \<le> int (Suc n) * int (count_list (map (toZone E) domains) z)"
      by (intro mult_right_mono) auto
    then show "refcount (extraDomains s) z
           + int n * int (count_list (map (toZone E) domains) z) < 2 ^ 63"
      using Suc.prems [rule_format, of z] by linarith
  qed
  from Suc.IH [OF smaller]
  have t: "refsInRange (extraDomains t)"
    "\<forall>z. refcount (extraDomains t) z
          = refcount (extraDomains s) z + int n * int (count_list (map (toZone E) domains) z)"
    by (simp_all add: t_def)
  have bound: "\<forall>z. refcount (extraDomains t) z + int (count_list (map (toZone E) domains) z) < 2 ^ 63"
    using t(2) Suc.prems by (simp add: algebra_simps)
  from incRef_loop [OF t(1) bound] t(2)
  show ?case
    by (simp add: t_def [symmetric] RegisterHandler_extraDomains algebra_simps)
qed

lemma DeregisterHandler_repeat:
  assumes "refsInRange (extraDomains s)"
  shows "refsInRange (extraDomains (((DeregisterHandler E domains p) ^^ n) s))
    \<and> (\<forall>z. refcount (extraDomains (((DeregisterHandler E domains p) ^^ n) s)) z
          = max 0 (refcount (extraDomains s) z
                     - int n * int (count_list (map (toZone E) domains) z)))"
proof (induction n)
  case 0
  then show ?case using assms refcount_nonneg [OF assms] by simp
next
  case (Suc n)
  define t where "t = ((DeregisterHandler E domains p) ^^ n) s"
  from Suc.IH
  have t: "refsInRange (extraDomains t)"
    "\<forall>z. refcount (extraDomains t) z
          = max 0 (refcount (extraDomains s) z
                     - int n * int (count_list (map (toZone E) domains) z))"
    by (simp_all add: t_def)
  from decRef_loop [OF t(1)] t(2)
  show ?case
    by (auto simp: t_def [symmetric] DeregisterHandler_extraDomains algebra_simps)
qed

text \<open>The property \<open>refsInRange\<close> holds of a new server and is kept by the operations:
  \<^verbatim>\<open>Stop\<close> empties the map, \<^verbatim>\<open>UpdateDNSServer\<close> does not touch it,
  \<^verbatim>\<open>DeregisterHandler\<close> keeps it, and \<^verbatim>\<open>RegisterHandler\<close> keeps it unless a count
  overflows.\<close>

lemma applyConfiguration_extraDomains:
  "extraDomains (snd (applyConfiguration E c s)) = extraDomains s"
proof (cases "buildUpstreamHandlerUpdate E (NameServerGroups c)")
  case (Inl err)
  define s1 where "s1 = (if ServiceEnable c then snd (enableDNS E s)
                 else if \<not> permanent s then disableDNS E s else s)"
  have "applyConfiguration E c s = (Some (ErrWrap ''upstream handler updater'' err), s1)"
    using Inl by (simp add: applyConfiguration_def s1_def Let_def split: prod.splits)
  then show ?thesis
    using serviceStep_fields [OF s1_def] by simp
next
  case (Inr ups)
  from applyConfiguration_applied [OF Inr, of s] show ?thesis by auto
qed

lemma UpdateDNSServer_extraDomains:
  "extraDomains (snd (UpdateDNSServer E serial c s)) = extraDomains s"
  using applyConfiguration_extraDomains [of E c s]
  by (cases "applyConfiguration E c s")
    (auto simp: UpdateDNSServer_def Let_def split: option.splits)

lemma refsInRange_kept:
  "refsInRange (extraDomains (newDefaultServer b))"
  "refsInRange (extraDomains (Stop E s))"
  "refsInRange (extraDomains s) \<Longrightarrow> refsInRange (extraDomains (snd (UpdateDNSServer E serial c s)))"
  "refsInRange (extraDomains s) \<Longrightarrow> refsInRange (extraDomains (DeregisterHandler E domains p s))"
  "refsInRange (extraDomains s) \<Longrightarrow>
   \<forall>z. refcount (extraDomains s) z + int (count_list (map (toZone E) domains) z) < 2 ^ 63 \<Longrightarrow>
   refsInRange (extraDomains (RegisterHandler E domains h p s))"
proof -
  show "refsInRange (extraDomains (newDefaultServer b))"
    by (simp add: newDefaultServer_def refsInRange_iff)
  show "refsInRange (extraDomains (Stop E s))"
    by (simp add: Stop_def Let_def refsInRange_iff)
  show "refsInRange (extraDomains s) \<Longrightarrow>
      refsInRange (extraDomains (snd (UpdateDNSServer E serial c s)))"
    by (simp add: UpdateDNSServer_extraDomains)
  show "refsInRange (extraDomains s) \<Longrightarrow> refsInRange (extraDomains (DeregisterHandler E domains p s))"
    using decRef_loop [of "extraDomains s" "toZone E" domains]
    by (simp add: DeregisterHandler_extraDomains)
  show "refsInRange (extraDomains s) \<Longrightarrow>
   \<forall>z. refcount (extraDomains s) z + int (count_list (map (toZone E) domains) z) < 2 ^ 63 \<Longrightarrow>
   refsInRange (extraDomains (RegisterHandler E domains h p s))"
    using incRef_loop [of "extraDomains s" "toZone E" domains]
    by (simp add: RegisterHandler_extraDomains)
qed

text \<open>
  C7. From a server whose reference counts are positive values of \<^verbatim>\<open>int\<close>, and as
  long as no count overflows on the way, \<open>N\<close> calls of \<^verbatim>\<open>RegisterHandler(D, h, p)\<close>
  followed by \<open>N\<close> calls of \<^verbatim>\<open>DeregisterHandler(D, p)\<close> leave the extra-domain map
  as it was.
\<close>

theorem register_deregister_inverse:
  assumes "refsInRange (extraDomains s)"
    and "\<forall>d \<in> set domains.
           refcount (extraDomains s) (toZone E d)
             + int N * int (count_list (map (toZone E) domains) (toZone E d)) < 2 ^ 63"
  shows "map_of (extraDomains (((DeregisterHandler E domains p) ^^ N)
                                 (((RegisterHandler E domains h p) ^^ N) s)))
         = map_of (extraDomains s)"
proof -
  define r where "r = ((RegisterHandler E domains h p) ^^ N) s"
  have bound: "\<forall>z. refcount (extraDomains s) z
           + int N * int (count_list (map (toZone E) domains) z) < 2 ^ 63"
  proof
    fix z
    show "refcount (extraDomains s) z
           + int N * int (count_list (map (toZone E) domains) z) < 2 ^ 63"
    proof (cases "z \<in> set (map (toZone E) domains)")
      case True
      then show ?thesis using assms(2) by auto
    next
      case False
      then have "count_list (map (toZone E) domains) z = 0"
        by simp
      then show ?thesis using refcount_nonneg [OF assms(1), of z] by simp
    qed
  qed
  from RegisterHandler_repeat [OF assms(1) bound]
  have r: "refsInRange (extraDomains r)"
    "\<forall>z. refcount (extraDomains r) z
          = refcount (extraDomains s) z + int N * int (count_list (map (toZone E) domains) z)"
    by (simp_all add: r_def)
  from DeregisterHandler_repeat [OF r(1), where E = E and domains = domains and p = p and n = N]
  have d: "refsInRange (extraDomains (((DeregisterHandler E domains p) ^^ N) r))"
    "\<forall>z. refcount (extraDomains (((DeregisterHandler E domains p) ^^ N) r)) z
          = max 0 (refcount (extraDomains r) z
                     - int N * int (count_list (map (toZone E) domains) z))"
    by simp_all
  have "\<forall>z. refcount (extraDomains (((DeregisterHandler E domains p) ^^ N) r)) z
          = refcount (extraDomains s) z"
    using d(2) r(2) refcount_nonneg [OF assms(1)] by simp
  from map_of_by_refcount [OF assms(1) d(1) this]
  show ?thesis by (simp add: r_def)
qed

theorem register_deregister_inverse_witness:
  "extraDomains routedServer = [(''example.com.'', 1)]
   \<and> refsInRange (extraDomains routedServer)
   \<and> refcount (extraDomains (((RegisterHandler exampleEnv [''example.com'', ''other.org'']
                                  (ExternalHandler ''dnsroute'') 75) ^^ 2) routedServer))
        ''example.com.'' = 3
   \<and> map_of (extraDomains (((DeregisterHandler exampleEnv [''example.com'', ''other.org''] 75) ^^ 2)
                (((RegisterHandler exampleEnv [''example.com'', ''other.org'']
                     (ExternalHandler ''dnsroute'') 75) ^^ 2) routedServer)))
       = map_of (extraDomains routedServer)"
proof -
  have start: "extraDomains routedServer = [(''example.com.'', 1)]"
    by code_simp
  have inrange: "refsInRange (extraDomains routedServer)"
    by (simp add: start refsInRange_iff)
  have bound: "\<forall>d \<in> set [''example.com'', ''other.org''].
           refcount (extraDomains routedServer) (toZone exampleEnv d)
             + int 2 * int (count_list (map (toZone exampleEnv) [''example.com'', ''other.org''])
                              (toZone exampleEnv d)) < 2 ^ 63"
    by code_simp
  have twice: "refcount (extraDomains (((RegisterHandler exampleEnv [''example.com'', ''other.org'']
                                  (ExternalHandler ''dnsroute'') 75) ^^ 2) routedServer))
        ''example.com.'' = 3"
    by code_simp
  from register_deregister_inverse [OF inrange bound, of 75 "ExternalHandler ''dnsroute''"]
    start inrange twice
  show ?thesis by blast
qed

subsection \<open>Deactivating and reactivating an upstream group\<close>

lemma set_update_subset: "set (AList.update k v al) \<subseteq> insert (k, v) (set al)"
  by (induction al) auto

lemma setDisabled_Domains:
  "Domains (currentConfig (setDisabled i b s))
     = (Domains (currentConfig s))[i := (Domains (currentConfig s) ! i)\<lparr>Disabled := b\<rparr>]"
  by (simp add: setDisabled_def)

text \<open>What \<^verbatim>\<open>deactivate\<close> records: for each key \<open>-1\<close>, or an index of
  \<^verbatim>\<open>currentConfig.Domains\<close> whose entry has the key as its domain and was disabled.\<close>

lemma deactivateLoop_records:
  assumes "deactivateLoop p i items (ri, s) = (ri', s')"
    and "items = drop i ds0"
    and "length (Domains (currentConfig s)) = length ds0"
    and "\<forall>dk \<in> set ri. snd dk = - 1 \<or>
           (0 \<le> snd dk \<and> nat (snd dk) < length ds0 \<and> dcDomain (ds0 ! nat (snd dk)) = fst dk
            \<and> Disabled (Domains (currentConfig s) ! nat (snd dk)))"
  shows "length (Domains (currentConfig s')) = length ds0
    \<and> (\<forall>dk \<in> set ri'. snd dk = - 1 \<or>
           (0 \<le> snd dk \<and> nat (snd dk) < length ds0 \<and> dcDomain (ds0 ! nat (snd dk)) = fst dk
            \<and> Disabled (Domains (currentConfig s') ! nat (snd dk))))"
  using assms
proof (induction items arbitrary: i ri s)
  case Nil
  then show ?case by simp
next
  case (Cons item items)
  have i: "i < length ds0" and item: "item = ds0 ! i" and items: "items = drop (Suc i) ds0"
    using Cons.prems(2)
    by (metis drop_all leI list.distinct(1), metis Cons_nth_drop_Suc drop_all leI list.distinct(1) list.inject,
        metis Cons_nth_drop_Suc drop_all leI list.distinct(1) list.inject)
  show ?case
  proof (cases "map_of ri (dcDomain item) \<noteq> None")
    case False
    then have "deactivateLoop p (Suc i) items (ri, s) = (ri', s')"
      using Cons.prems(1) by simp
    from Cons.IH [OF this items Cons.prems(3) Cons.prems(4)] show ?thesis .
  next
    case True
    define t where "t = deregisterHandler [dcDomain item] p (setDisabled i True s)"
    define rj where "rj = AList.update (dcDomain item) (int i) ri"
    have step: "deactivateLoop p (Suc i) items (rj, t) = (ri', s')"
      using Cons.prems(1) True by (simp add: t_def rj_def)
    have doms: "Domains (currentConfig t)
        = (Domains (currentConfig s))[i := (Domains (currentConfig s) ! i)\<lparr>Disabled := True\<rparr>]"
      by (simp add: t_def onlyEvents_fields [OF onlyEvents_deregisterHandler] setDisabled_Domains)
    have len: "length (Domains (currentConfig t)) = length ds0"
      using Cons.prems(3) by (simp add: doms)
    have rec: "\<forall>dk \<in> set rj. snd dk = - 1 \<or>
           (0 \<le> snd dk \<and> nat (snd dk) < length ds0 \<and> dcDomain (ds0 ! nat (snd dk)) = fst dk
            \<and> Disabled (Domains (currentConfig t) ! nat (snd dk)))"
    proof
      fix dk assume "dk \<in> set rj"
      then consider "dk = (dcDomain item, int i)" | "dk \<in> set ri"
        using set_update_subset [of "dcDomain item" "int i" ri] by (auto simp: rj_def)
      then show "snd dk = - 1 \<or>
           (0 \<le> snd dk \<and> nat (snd dk) < length ds0 \<and> dcDomain (ds0 ! nat (snd dk)) = fst dk
            \<and> Disabled (Domains (currentConfig t) ! nat (snd dk)))"
      proof cases
        case 1
        then show ?thesis using i item Cons.prems(3) by (simp add: doms)
      next
        case 2
        then have old: "snd dk = - 1 \<or>
           (0 \<le> snd dk \<and> nat (snd dk) < length ds0 \<and> dcDomain (ds0 ! nat (snd dk)) = fst dk
            \<and> Disabled (Domains (currentConfig s) ! nat (snd dk)))"
          using Cons.prems(4) by blast
        show ?thesis
        proof (cases "snd dk = - 1")
          case True
          then show ?thesis by simp
        next
          case False
          then have "Disabled (Domains (currentConfig t) ! nat (snd dk))"
            using old Cons.prems(3) i by (cases "nat (snd dk) = i") (simp_all add: doms)
          then show ?thesis using old False by simp
        qed
      qed
    qed
    from Cons.IH [OF step items len rec] show ?thesis .
  qed
qed

lemma deactivate_records:
  assumes "deactivate E nsGroup p err s0 = (ri, s1)"
  shows "\<forall>dk \<in> set ri. snd dk = - 1 \<or>
           (0 \<le> snd dk \<and> nat (snd dk) < length (Domains (currentConfig s0))
            \<and> dcDomain (Domains (currentConfig s0) ! nat (snd dk)) = fst dk
            \<and> Disabled (Domains (currentConfig s1) ! nat (snd dk)))"
proof -
  define ri0 where "ri0 = foldl (\<lambda>m d. AList.update d (- 1 :: int) m) [] (nsgDomains nsGroup)"
  define ri1 where "ri1 = (if Primary nsGroup then AList.update RootZone (- 1) ri0 else ri0)"
  define t1 where "t1 = (if Primary nsGroup
             then deregisterHandler [RootZone] p
                     (s0\<lparr>currentConfig := (currentConfig s0)\<lparr>RouteAll := False\<rparr>\<rparr>)
             else s0)"
  obtain rj t2 where loop: "deactivateLoop p 0 (Domains (currentConfig t1)) (ri1, t1) = (rj, t2)"
    by (cases "deactivateLoop p 0 (Domains (currentConfig t1)) (ri1, t1)") blast
  define t5 where "t5 = (if goosIsAndroid E \<and> Primary nsGroup
                             \<and> length (hostsDNSHolder (emit PersistState (applyHostConfig E t2))) > 0
                then addHostRootZone E (emit PersistState (applyHostConfig E t2))
                else emit PersistState (applyHostConfig E t2))"
  have res: "deactivate E nsGroup p err s0 = (rj, updateNSState nsGroup (Some err) False t5)"
    using loop
    unfolding deactivate_def ri0_def ri1_def t1_def t5_def Let_def
    by (simp split: if_splits)
  have ri_eq: "ri = rj" and s1_eq: "s1 = updateNSState nsGroup (Some err) False t5"
    using assms res by simp_all
  have d1: "Domains (currentConfig t1) = Domains (currentConfig s0)"
    by (simp add: t1_def onlyEvents_fields [OF onlyEvents_deregisterHandler])
  have all_minus: "\<forall>dk \<in> set (foldl (\<lambda>m d. AList.update d (- 1 :: int) m) m ds). snd dk = - 1"
    if "\<forall>dk \<in> set m. snd dk = - 1" for m :: "(string \<times> int) list" and ds
    using that
  proof (induction ds arbitrary: m)
    case Nil
    then show ?case by simp
  next
    case (Cons d ds)
    have "\<forall>dk \<in> set (AList.update d (- 1) m). snd dk = - 1"
      using Cons.prems set_update_subset [of d "- 1" m] by auto
    from Cons.IH [OF this] show ?case by simp
  qed
  have "\<forall>dk \<in> set ri0. snd dk = - 1"
    unfolding ri0_def by (rule all_minus) simp
  then have init: "\<forall>dk \<in> set ri1. snd dk = - 1"
    using set_update_subset [of RootZone "- 1" ri0] by (auto simp: ri1_def)
  have pre: "\<forall>dk \<in> set ri1. snd dk = - 1 \<or>
           (0 \<le> snd dk \<and> nat (snd dk) < length (Domains (currentConfig s0))
            \<and> dcDomain (Domains (currentConfig s0) ! nat (snd dk)) = fst dk
            \<and> Disabled (Domains (currentConfig t1) ! nat (snd dk)))"
    using init by blast
  have loop': "deactivateLoop p 0 (Domains (currentConfig s0)) (ri1, t1) = (rj, t2)"
    using loop d1 by simp
  from deactivateLoop_records [OF loop', of "Domains (currentConfig s0)"] d1 pre
  have rec: "\<forall>dk \<in> set rj. snd dk = - 1 \<or>
           (0 \<le> snd dk \<and> nat (snd dk) < length (Domains (currentConfig s0))
            \<and> dcDomain (Domains (currentConfig s0) ! nat (snd dk)) = fst dk
            \<and> Disabled (Domains (currentConfig t2) ! nat (snd dk)))"
    by simp
  have o: "onlyEvents t2 t5"
    unfolding t5_def
    using onlyEvents_trans [OF onlyEvents_applyHostConfig onlyEvents_emit]
      onlyEvents_trans [OF onlyEvents_trans [OF onlyEvents_applyHostConfig onlyEvents_emit]
        onlyEvents_addHostRootZone]
    by auto
  have "currentConfig s1 = currentConfig t2"
    by (simp add: s1_eq updateNSState_def onlyEvents_fields [OF o])
  then show ?thesis using rec ri_eq by simp
qed

text \<open>The loop of \<^verbatim>\<open>reactivate\<close>, for recorded indices that are \<open>-1\<close> or not
  negative: it returns, keeps the length of \<^verbatim>\<open>currentConfig.Domains\<close>, clears
  \<^verbatim>\<open>Disabled\<close> in the slots whose index is recorded under the slot's own domain, and
  leaves every other slot and every other field but the event log as it was.\<close>

lemma reactivateLoop_char:
  assumes "\<forall>dk \<in> set ri. - 1 \<le> snd dk"
  shows "\<exists>ds' new. reactivateLoop h p ri s
            = Some (s\<lparr>currentConfig := (currentConfig s)\<lparr>Domains := ds'\<rparr>,
                      events := events s @ new\<rparr>)
      \<and> length ds' = length (Domains (currentConfig s))
      \<and> (\<forall>j < length (Domains (currentConfig s)).
            ds' ! j = (if (dcDomain (Domains (currentConfig s) ! j), int j) \<in> set ri
                       then (Domains (currentConfig s) ! j)\<lparr>Disabled := False\<rparr>
                       else Domains (currentConfig s) ! j))"
  using assms
proof (induction ri arbitrary: s)
  case Nil
  show ?case
    by (intro exI [of _ "Domains (currentConfig s)"] exI [of _ "[]"]) simp
next
  case (Cons dk rest)
  obtain d i where dk: "dk = (d, i)" by (cases dk)
  let ?ds = "Domains (currentConfig s)"
  have ge: "- 1 \<le> i" and rest_ge: "\<forall>dk \<in> set rest. - 1 \<le> snd dk"
    using Cons.prems dk by auto
  show ?case
  proof (cases "i = - 1 \<or> i \<ge> int (length ?ds) \<or> dcDomain (?ds ! nat i) \<noteq> d")
    case True
    then have skip: "reactivateLoop h p (dk # rest) s = reactivateLoop h p rest s"
      using ge by (auto simp: dk)
    have same: "(dcDomain (?ds ! j), int j) \<in> set (dk # rest)
        \<longleftrightarrow> (dcDomain (?ds ! j), int j) \<in> set rest" if "j < length ?ds" for j
      using True that by (auto simp: dk)
    from Cons.IH [OF rest_ge, of s]
    obtain ds' new where r: "reactivateLoop h p rest s
            = Some (s\<lparr>currentConfig := (currentConfig s)\<lparr>Domains := ds'\<rparr>,
                      events := events s @ new\<rparr>)"
      and len: "length ds' = length ?ds"
      and slots: "\<forall>j < length ?ds.
            ds' ! j = (if (dcDomain (?ds ! j), int j) \<in> set rest
                       then (?ds ! j)\<lparr>Disabled := False\<rparr> else ?ds ! j)"
      by blast
    have slots': "\<forall>j < length ?ds.
            ds' ! j = (if (dcDomain (?ds ! j), int j) \<in> set (dk # rest)
                       then (?ds ! j)\<lparr>Disabled := False\<rparr> else ?ds ! j)"
      using slots same by simp
    show ?thesis
      unfolding skip using r len slots' by blast
  next
    case False
    then have i: "0 \<le> i" "nat i < length ?ds" "dcDomain (?ds ! nat i) = d"
      using ge by auto
    define t where "t = registerHandler [d] h p (setDisabled (nat i) False s)"
    have step: "reactivateLoop h p (dk # rest) s = reactivateLoop h p rest t"
      using False i by (simp add: dk t_def)
    have tds: "Domains (currentConfig t) = ?ds[nat i := (?ds ! nat i)\<lparr>Disabled := False\<rparr>]"
      by (simp add: t_def onlyEvents_fields [OF onlyEvents_registerHandler] setDisabled_Domains)
    have t_eq: "t = s\<lparr>currentConfig := (currentConfig s)\<lparr>Domains := Domains (currentConfig t)\<rparr>,
                     events := events s @ map (\<lambda>d. AddHandler d h p) (filter (\<lambda>d. d \<noteq> []) [d])\<rparr>"
      by (simp add: t_def registerHandler_def setDisabled_def)
    from Cons.IH [OF rest_ge, of t]
    obtain ds' new where r: "reactivateLoop h p rest t
            = Some (t\<lparr>currentConfig := (currentConfig t)\<lparr>Domains := ds'\<rparr>,
                      events := events t @ new\<rparr>)"
      and len: "length ds' = length (Domains (currentConfig t))"
      and slots: "\<forall>j < length (Domains (currentConfig t)).
            ds' ! j = (if (dcDomain (Domains (currentConfig t) ! j), int j) \<in> set rest
                       then (Domains (currentConfig t) ! j)\<lparr>Disabled := False\<rparr>
                       else Domains (currentConfig t) ! j)"
      by blast
    have res: "reactivateLoop h p (dk # rest) s
        = Some (s\<lparr>currentConfig := (currentConfig s)\<lparr>Domains := ds'\<rparr>,
                  events := events s
                    @ (map (\<lambda>d. AddHandler d h p) (filter (\<lambda>d. d \<noteq> []) [d]) @ new)\<rparr>)"
      unfolding step r by (subst t_eq) (simp add: t_def registerHandler_def setDisabled_def)
    have len': "length ds' = length ?ds"
      using len by (simp add: tds)
    have slots': "ds' ! j = (if (dcDomain (?ds ! j), int j) \<in> set (dk # rest)
                       then (?ds ! j)\<lparr>Disabled := False\<rparr> else ?ds ! j)"
      if j: "j < length ?ds" for j
    proof -
      have jt: "j < length (Domains (currentConfig t))"
        using j by (simp only: tds length_list_update)
      note sj = slots [rule_format, OF jt]
      show ?thesis
      proof (cases "j = nat i")
        case True
        have a: "Domains (currentConfig t) ! j = (?ds ! j)\<lparr>Disabled := False\<rparr>"
          unfolding tds True using i(2) by (rule nth_list_update_eq)
        have b: "(dcDomain (?ds ! j), int j) \<in> set (dk # rest)"
          unfolding True dk using i(1) i(3) by simp
        have "ds' ! j = (?ds ! j)\<lparr>Disabled := False\<rparr>"
          using sj unfolding a by simp
        then show ?thesis using b by simp
      next
        case False
        have a: "Domains (currentConfig t) ! j = ?ds ! j"
          unfolding tds using False by simp
        have "int j \<noteq> i"
          using False i(1) by linarith
        then have b: "(dcDomain (?ds ! j), int j) \<in> set (dk # rest)
            \<longleftrightarrow> (dcDomain (?ds ! j), int j) \<in> set rest"
          unfolding dk by simp
        show ?thesis
          using sj unfolding a b .
      qed
    qed
    have "\<forall>j < length ?ds. ds' ! j = (if (dcDomain (?ds ! j), int j) \<in> set (dk # rest)
                       then (?ds ! j)\<lparr>Disabled := False\<rparr> else ?ds ! j)"
      using slots' by blast
    then show ?thesis
      using res len' by blast
  qed
qed

text \<open>
  C5. Let \<^verbatim>\<open>removeIndex\<close> be what \<^verbatim>\<open>deactivate\<close> recorded on a server \<open>s0\<close>. Every
  record is \<open>-1\<close> or an index of the domains of \<open>s0\<close> whose entry had the recorded
  name and was disabled by \<^verbatim>\<open>deactivate\<close>. On any later server \<open>s\<close>, \<^verbatim>\<open>reactivate\<close>
  returns; it keeps the length of \<^verbatim>\<open>currentConfig.Domains\<close>, clears \<^verbatim>\<open>Disabled\<close> in the
  slots whose index is recorded under the domain the slot holds now, and leaves every
  other slot as it was (a record whose index is out of range, or whose name is not the
  slot's, changes nothing). For a primary group it sets \<^verbatim>\<open>RouteAll\<close> and registers the
  handler for the root zone at the group's priority; otherwise \<^verbatim>\<open>RouteAll\<close> is kept.
\<close>

theorem reactivate_undoes_recorded:
  assumes "deactivate E nsGroup p err s0 = (removeIndex, s1)"
  shows "(\<forall>dk \<in> set removeIndex. snd dk = - 1 \<or>
           (0 \<le> snd dk \<and> nat (snd dk) < length (Domains (currentConfig s0))
            \<and> dcDomain (Domains (currentConfig s0) ! nat (snd dk)) = fst dk
            \<and> Disabled (Domains (currentConfig s1) ! nat (snd dk))))
    \<and> (\<exists>s'. reactivate E removeIndex nsGroup h p s = Some s'
          \<and> length (Domains (currentConfig s')) = length (Domains (currentConfig s))
          \<and> (\<forall>j < length (Domains (currentConfig s)).
                Domains (currentConfig s') ! j
                  = (if (dcDomain (Domains (currentConfig s) ! j), int j) \<in> set removeIndex
                     then (Domains (currentConfig s) ! j)\<lparr>Disabled := False\<rparr>
                     else Domains (currentConfig s) ! j))
          \<and> (Primary nsGroup \<longrightarrow>
                RouteAll (currentConfig s')
                \<and> AddHandler RootZone h p \<in> set (drop (length (events s)) (events s')))
          \<and> (\<not> Primary nsGroup \<longrightarrow> RouteAll (currentConfig s') = RouteAll (currentConfig s)))"
proof -
  note rec = deactivate_records [OF assms]
  then have ge: "\<forall>dk \<in> set removeIndex. - 1 \<le> snd dk"
    by fastforce
  from reactivateLoop_char [OF ge, of h p s]
  obtain ds' new where loop: "reactivateLoop h p removeIndex s
            = Some (s\<lparr>currentConfig := (currentConfig s)\<lparr>Domains := ds'\<rparr>,
                      events := events s @ new\<rparr>)"
    and len: "length ds' = length (Domains (currentConfig s))"
    and slots: "\<forall>j < length (Domains (currentConfig s)).
            ds' ! j = (if (dcDomain (Domains (currentConfig s) ! j), int j) \<in> set removeIndex
                       then (Domains (currentConfig s) ! j)\<lparr>Disabled := False\<rparr>
                       else Domains (currentConfig s) ! j)"
    by blast
  define t1 where "t1 = s\<lparr>currentConfig := (currentConfig s)\<lparr>Domains := ds'\<rparr>,
                      events := events s @ new\<rparr>"
  define t2 where "t2 = (if Primary nsGroup
                    then registerHandler [RootZone] h p
                           (t1\<lparr>currentConfig := (currentConfig t1)\<lparr>RouteAll := True\<rparr>\<rparr>)
                    else t1)"
  define s' where "s' = updateNSState nsGroup None True (applyHostConfig E t2)"
  have res: "reactivate E removeIndex nsGroup h p s = Some s'"
    by (simp add: reactivate_def loop s'_def t2_def t1_def Let_def)
  have cc: "currentConfig s' = currentConfig t2"
    by (simp add: s'_def updateNSState_def onlyEvents_fields [OF onlyEvents_applyHostConfig])
  have doms: "Domains (currentConfig s') = ds'"
    by (simp add: cc t2_def t1_def registerHandler_def)
  obtain more where ev: "events s' = events t2 @ more"
    using onlyEvents_applyHostConfig [of t2 E]
    by (auto simp: s'_def updateNSState_def onlyEvents_def)
  have primary: "RouteAll (currentConfig s')
                \<and> AddHandler RootZone h p \<in> set (drop (length (events s)) (events s'))"
    if "Primary nsGroup"
  proof -
    have "events t2 = events s @ new @ [AddHandler RootZone h p]"
      using that by (simp add: t2_def t1_def registerHandler_def RootZone_def)
    then have "drop (length (events s)) (events s') = new @ [AddHandler RootZone h p] @ more"
      by (simp add: ev)
    moreover have "RouteAll (currentConfig s')"
      using that by (simp add: cc t2_def t1_def registerHandler_def)
    ultimately show ?thesis by simp
  qed
  have secondary: "RouteAll (currentConfig s') = RouteAll (currentConfig s)"
    if "\<not> Primary nsGroup"
    using that by (simp add: cc t2_def t1_def)
  have slots_s': "\<forall>j < length (Domains (currentConfig s)).
                Domains (currentConfig s') ! j
                  = (if (dcDomain (Domains (currentConfig s) ! j), int j) \<in> set removeIndex
                     then (Domains (currentConfig s) ! j)\<lparr>Disabled := False\<rparr>
                     else Domains (currentConfig s) ! j)"
    using slots by (simp only: doms)
  have len_s': "length (Domains (currentConfig s')) = length (Domains (currentConfig s))"
    using len by (simp only: doms)
  have ex: "\<exists>s'. reactivate E removeIndex nsGroup h p s = Some s'
          \<and> length (Domains (currentConfig s')) = length (Domains (currentConfig s))
          \<and> (\<forall>j < length (Domains (currentConfig s)).
                Domains (currentConfig s') ! j
                  = (if (dcDomain (Domains (currentConfig s) ! j), int j) \<in> set removeIndex
                     then (Domains (currentConfig s) ! j)\<lparr>Disabled := False\<rparr>
                     else Domains (currentConfig s) ! j))
          \<and> (Primary nsGroup \<longrightarrow>
                RouteAll (currentConfig s')
                \<and> AddHandler RootZone h p \<in> set (drop (length (events s)) (events s')))
          \<and> (\<not> Primary nsGroup \<longrightarrow> RouteAll (currentConfig s') = RouteAll (currentConfig s))"
    using res len_s' slots_s' primary secondary by (intro exI [of _ s']) blast
  show ?thesis by (rule conjI [OF rec ex])
qed

theorem reactivate_undoes_recorded_witness:
  "deactivate exampleEnv corpGroup 50 ''timeout'' appliedServer = ([(''corp.local.'', 0)], corpDeactivated)
   \<and> Domains (currentConfig corpDeactivated)
       = [\<lparr>Disabled = True, dcDomain = ''corp.local.'', MatchOnly = False\<rparr>]
   \<and> (\<exists>s'. reactivate exampleEnv [(''corp.local.'', 0)] corpGroup corpHandler 50 corpDeactivated = Some s'
         \<and> length (Domains (currentConfig s')) = 1
         \<and> Domains (currentConfig s') ! 0
             = \<lparr>Disabled = False, dcDomain = ''corp.local.'', MatchOnly = False\<rparr>
         \<and> RouteAll (currentConfig s') = RouteAll (currentConfig corpDeactivated))
   \<and> deactivate exampleEnv primaryGroup 1 ''timeout'' appliedServer = ([(''.'', - 1)], primaryDeactivated)
   \<and> Primary primaryGroup \<and> \<not> RouteAll (currentConfig primaryDeactivated)
   \<and> (\<exists>s'. reactivate exampleEnv [(''.'', - 1)] primaryGroup primaryHandler 1 primaryDeactivated = Some s'
         \<and> RouteAll (currentConfig s')
         \<and> AddHandler RootZone primaryHandler 1
              \<in> set (drop (length (events primaryDeactivated)) (events s')))"
proof -
  have d1: "deactivate exampleEnv corpGroup 50 ''timeout'' appliedServer
              = ([(''corp.local.'', 0)], corpDeactivated)"
    unfolding corpDeactivated_def by code_simp
  have doms: "Domains (currentConfig corpDeactivated)
       = [\<lparr>Disabled = True, dcDomain = ''corp.local.'', MatchOnly = False\<rparr>]"
    by code_simp
  have np: "\<not> Primary corpGroup"
    by (simp add: corpGroup_def)
  from reactivate_undoes_recorded [OF d1, of corpHandler corpDeactivated]
  obtain s' where s': "reactivate exampleEnv [(''corp.local.'', 0)] corpGroup corpHandler 50 corpDeactivated = Some s'"
    "length (Domains (currentConfig s')) = length (Domains (currentConfig corpDeactivated))"
    "\<forall>j < length (Domains (currentConfig corpDeactivated)).
                Domains (currentConfig s') ! j
                  = (if (dcDomain (Domains (currentConfig corpDeactivated) ! j), int j)
                          \<in> set [(''corp.local.'', 0)]
                     then (Domains (currentConfig corpDeactivated) ! j)\<lparr>Disabled := False\<rparr>
                     else Domains (currentConfig corpDeactivated) ! j)"
    "\<not> Primary corpGroup \<longrightarrow> RouteAll (currentConfig s') = RouteAll (currentConfig corpDeactivated)"
    by blast
  have slot: "Domains (currentConfig s') ! 0
             = \<lparr>Disabled = False, dcDomain = ''corp.local.'', MatchOnly = False\<rparr>"
    using s'(3) [rule_format, of 0] by (simp add: doms)
  have first: "\<exists>s'. reactivate exampleEnv [(''corp.local.'', 0)] corpGroup corpHandler 50 corpDeactivated = Some s'
         \<and> length (Domains (currentConfig s')) = 1
         \<and> Domains (currentConfig s') ! 0
             = \<lparr>Disabled = False, dcDomain = ''corp.local.'', MatchOnly = False\<rparr>
         \<and> RouteAll (currentConfig s') = RouteAll (currentConfig corpDeactivated)"
    using s'(1) s'(2) s'(4) slot np by (simp add: doms)
  have d2: "deactivate exampleEnv primaryGroup 1 ''timeout'' appliedServer
              = ([(''.'', - 1)], primaryDeactivated)"
    unfolding primaryDeactivated_def by code_simp
  have pr: "Primary primaryGroup"
    by (simp add: primaryGroup_def)
  have off: "\<not> RouteAll (currentConfig primaryDeactivated)"
    by code_simp
  from reactivate_undoes_recorded [OF d2, of primaryHandler primaryDeactivated] pr
  have second: "\<exists>s'. reactivate exampleEnv [(''.'', - 1)] primaryGroup primaryHandler 1 primaryDeactivated = Some s'
         \<and> RouteAll (currentConfig s')
         \<and> AddHandler RootZone primaryHandler 1
              \<in> set (drop (length (events primaryDeactivated)) (events s'))"
    by blast
  show ?thesis
    using d1 doms first d2 pr off second by blast
qed

end
